theory Spec2Isabelle
  imports Main
begin

section \<open>JSON-like values\<close>

text \<open>
  The values that flow through \<^verbatim>\<open>normalizeIntelxId\<close> and \<^verbatim>\<open>denormalizeIntelxId\<close>
  (src/lib/postprocess.ts). An object is the list of its own enumerable properties in the
  order \<^verbatim>\<open>Object.entries\<close> yields them. Numbers are the integers the registry hands out;
  a string is a list of code units, one \<open>char\<close> each (code units above 255 are not
  represented).
\<close>

datatype json =
    JNull
  | JBool bool
  | JNum int
  | JStr string
  | JArr "json list"
  | JObj "(string \<times> json) list"

section \<open>The identifier registry (src/lib/postprocess.ts, lines 13-109)\<close>

definition TRANSITION_FIELDS :: "string list" where
  "TRANSITION_FIELDS =
     [''system_id'', ''storage_id'', ''owner'', ''indexfile'', ''group'', ''randomid'',
      ''target'']"

text \<open>
  The module keeps, per field of \<open>TRANSITION_FIELDS\<close>, a forward map, a reverse map and a
  counter. The outer maps are filled once at module load with exactly the keys of
  \<open>TRANSITION_FIELDS\<close> and never change afterwards, so an outer lookup
  \<^verbatim>\<open>idToUuidMaps.get(field)\<close> is defined exactly when the field is in that list; the
  record below holds the inner maps.
\<close>

record registry =
  uuidToIdMaps :: "string \<Rightarrow> string \<rightharpoonup> int"
  idToUuidMaps :: "string \<Rightarrow> int \<rightharpoonup> string"
  counters :: "string \<Rightarrow> int"

definition initial_registry :: registry where
  "initial_registry =
     \<lparr>uuidToIdMaps = (\<lambda>field. Map.empty), idToUuidMaps = (\<lambda>field. Map.empty),
      counters = (\<lambda>field. 1)\<rparr>"

text \<open>
  Lines 52-59, the body of the branch taken for a pseudonymizable key holding a string:
  look the raw value up, allocate \<^verbatim>\<open>counters[field]++\<close> when it is new, store both
  directions, and yield \<^verbatim>\<open>map.get(value)\<close>.
\<close>

definition assign :: "string \<Rightarrow> string \<Rightarrow> registry \<Rightarrow> int \<times> registry" where
  "assign field v r =
     (case uuidToIdMaps r field v of
        Some n \<Rightarrow> (n, r)
      | None \<Rightarrow>
          (let newId = counters r field
           in (newId,
               r\<lparr>counters := (counters r)(field := newId + 1),
                 uuidToIdMaps := (uuidToIdMaps r)(field := (uuidToIdMaps r field)(v \<mapsto> newId)),
                 idToUuidMaps := (idToUuidMaps r)(field := (idToUuidMaps r field)(newId \<mapsto> v))\<rparr>)))"

text \<open>
  \<^verbatim>\<open>deepScan\<close> of \<^verbatim>\<open>normalizeIntelxId\<close> (lines 40-68), threading the registry through
  the walk from left to right. The copy starts as \<^verbatim>\<open>{}\<close> and receives one assignment
  \<^verbatim>\<open>copy[key] = ...\<close> per entry. For the key \<^verbatim>\<open>__proto__\<close> that assignment runs the
  setter inherited from \<^verbatim>\<open>Object.prototype\<close> and creates no own property, so the entry is
  missing from the copy's entries (its value has been scanned all the same).
\<close>

fun normalizeIntelxId :: "registry \<Rightarrow> json \<Rightarrow> json \<times> registry"
  and normalize_array :: "registry \<Rightarrow> json list \<Rightarrow> json list \<times> registry"
  and normalize_entries ::
    "registry \<Rightarrow> (string \<times> json) list \<Rightarrow> (string \<times> json) list \<times> registry"
  where
  "normalizeIntelxId r (JArr xs) = (let (ys, r') = normalize_array r xs in (JArr ys, r'))"
| "normalizeIntelxId r (JObj kvs) = (let (c, r') = normalize_entries r kvs in (JObj c, r'))"
| "normalizeIntelxId r v = (v, r)"
| "normalize_array r [] = ([], r)"
| "normalize_array r (x # xs) =
     (let (y, r1) = normalizeIntelxId r x; (ys, r2) = normalize_array r1 xs in (y # ys, r2))"
| "normalize_entries r [] = ([], r)"
| "normalize_entries r ((key, val) # kvs) =
     (let (v', r1) =
        (case val of
           JStr s \<Rightarrow>
             if key \<in> set TRANSITION_FIELDS
             then (let (n, r') = assign key s r in (JNum n, r'))
             else normalizeIntelxId r val
         | _ \<Rightarrow> normalizeIntelxId r val);
          (c, r2) = normalize_entries r1 kvs
      in (if key = ''__proto__'' then c else (key, v') # c, r2))"

text \<open>
  \<^verbatim>\<open>deepScan\<close> of \<^verbatim>\<open>denormalizeIntelxId\<close> (lines 73-95). It reads the registry and
  does not change it; \<^verbatim>\<open>original ?? value\<close> keeps the number when the reverse table has no
  entry.
\<close>

fun denormalizeIntelxId :: "registry \<Rightarrow> json \<Rightarrow> json"
  and denormalize_array :: "registry \<Rightarrow> json list \<Rightarrow> json list"
  and denormalize_entries :: "registry \<Rightarrow> (string \<times> json) list \<Rightarrow> (string \<times> json) list"
  where
  "denormalizeIntelxId r (JArr xs) = JArr (denormalize_array r xs)"
| "denormalizeIntelxId r (JObj kvs) = JObj (denormalize_entries r kvs)"
| "denormalizeIntelxId r v = v"
| "denormalize_array r [] = []"
| "denormalize_array r (x # xs) = denormalizeIntelxId r x # denormalize_array r xs"
| "denormalize_entries r [] = []"
| "denormalize_entries r ((key, val) # kvs) =
     (let v' =
        (case val of
           JNum n \<Rightarrow>
             if key \<in> set TRANSITION_FIELDS
             then (case idToUuidMaps r key n of
                     Some original \<Rightarrow> JStr original
                   | None \<Rightarrow> JNum n)
             else denormalizeIntelxId r val
         | _ \<Rightarrow> denormalizeIntelxId r val);
          c = denormalize_entries r kvs
      in (if key = ''__proto__'' then c else (key, v') # c))"

text \<open>Lines 97-109: \<^verbatim>\<open>idToUuidMaps.get(field)?.get(id)\<close> and its forward twin.\<close>

definition getOriginalUuid :: "string \<Rightarrow> int \<Rightarrow> registry \<Rightarrow> string option" where
  "getOriginalUuid field n r =
     (if field \<in> set TRANSITION_FIELDS then idToUuidMaps r field n else None)"

definition getNormalizedId :: "string \<Rightarrow> string \<Rightarrow> registry \<Rightarrow> int option" where
  "getNormalizedId field uuid r =
     (if field \<in> set TRANSITION_FIELDS then uuidToIdMaps r field uuid else None)"

text \<open>A sequence of normalize calls, each on the registry the previous one left.\<close>

fun normalize_all :: "registry \<Rightarrow> json list \<Rightarrow> registry" where
  "normalize_all r [] = r"
| "normalize_all r (t # ts) = normalize_all (snd (normalizeIntelxId r t)) ts"

text \<open>
  The registry invariant: counters start at 1, every forward entry has its reverse entry
  with an identifier between 1 and the counter, and every reverse entry has its forward
  entry.
\<close>

definition registry_inv :: "registry \<Rightarrow> bool" where
  "registry_inv r \<longleftrightarrow>
     (\<forall>field. 1 \<le> counters r field) \<and>
     (\<forall>field v n. uuidToIdMaps r field v = Some n \<longrightarrow>
        idToUuidMaps r field n = Some v \<and> 1 \<le> n \<and> n < counters r field) \<and>
     (\<forall>field n v. idToUuidMaps r field n = Some v \<longrightarrow> uuidToIdMaps r field v = Some n)"

text \<open>The forward tables only grow: an entry, once made, stays as it is.\<close>

definition registry_le :: "registry \<Rightarrow> registry \<Rightarrow> bool" where
  "registry_le r r' \<longleftrightarrow>
     (\<forall>field v n. uuidToIdMaps r field v = Some n \<longrightarrow> uuidToIdMaps r' field v = Some n)"

text \<open>\<^verbatim>\<open>typeof value === "string"\<close> and \<^verbatim>\<open>typeof value === "number"\<close>.\<close>

definition is_string :: "json \<Rightarrow> bool" where
  "is_string v = (case v of JStr s \<Rightarrow> True | _ \<Rightarrow> False)"

definition is_number :: "json \<Rightarrow> bool" where
  "is_number v = (case v of JNum n \<Rightarrow> True | _ \<Rightarrow> False)"

text \<open>
  A tree is settled when no object has the key \<^verbatim>\<open>__proto__\<close> and no pseudonymizable key
  holds a string: the forward walk has nothing left to do on it.
\<close>

fun settled :: "json \<Rightarrow> bool"
  and settled_array :: "json list \<Rightarrow> bool"
  and settled_entries :: "(string \<times> json) list \<Rightarrow> bool"
  where
  "settled (JArr xs) = settled_array xs"
| "settled (JObj kvs) = settled_entries kvs"
| "settled v = True"
| "settled_array [] = True"
| "settled_array (x # xs) = (settled x \<and> settled_array xs)"
| "settled_entries [] = True"
| "settled_entries ((key, val) # kvs) =
     (key \<noteq> ''__proto__'' \<and> \<not> (key \<in> set TRANSITION_FIELDS \<and> is_string val) \<and>
      settled val \<and> settled_entries kvs)"

text \<open>
  A tree is plain when no object has the key \<^verbatim>\<open>__proto__\<close> and no pseudonymizable key
  holds a number: the reverse walk has nothing to replace in it.
\<close>

fun plain :: "json \<Rightarrow> bool"
  and plain_array :: "json list \<Rightarrow> bool"
  and plain_entries :: "(string \<times> json) list \<Rightarrow> bool"
  where
  "plain (JArr xs) = plain_array xs"
| "plain (JObj kvs) = plain_entries kvs"
| "plain v = True"
| "plain_array [] = True"
| "plain_array (x # xs) = (plain x \<and> plain_array xs)"
| "plain_entries [] = True"
| "plain_entries ((key, val) # kvs) =
     (key \<noteq> ''__proto__'' \<and> \<not> (key \<in> set TRANSITION_FIELDS \<and> is_number val) \<and>
      plain val \<and> plain_entries kvs)"

section \<open>The identity normalizer (src/lib/postprocess.ts, lines 111-145)\<close>

text \<open>\<^verbatim>\<open>IdentityRecord\<close> (the fields the normalizer reads) and the flattened record.\<close>

record identity_record =
  item_name :: string
  item_date :: string
  item_bucket :: string
  item_storageid :: string
  item_systemid :: string
  linea :: string

record identity_normalized =
  line :: string
  system_id :: string
  storage_id :: string
  bucket :: string
  filename :: string
  date :: string

text \<open>Lines 115-122, the callback of the first \<^verbatim>\<open>map\<close>.\<close>

definition project_identity :: "identity_record \<Rightarrow> identity_normalized" where
  "project_identity record =
     \<lparr>line = linea record, system_id = item_systemid record,
      storage_id = item_storageid record, bucket = item_bucket record,
      filename = item_name record, date = item_date record\<rparr>"

text \<open>What a function of this development throws.\<close>

datatype error =
    ApiError
  | InvalidSearchTerm
  | InvalidSearchId
  | InvalidIdentifier
  | MissingParameters
  | ZodError
  | TypeError

text \<open>
  \<^verbatim>\<open>mergedByStorageId\<close> is a plain object \<^verbatim>\<open>{}\<close> used as a dictionary. Reading
  \<^verbatim>\<open>mergedByStorageId[k]\<close> for a name that \<^verbatim>\<open>Object.prototype\<close> defines yields the
  inherited member, which is truthy although the object has no such own property.
\<close>

definition objectPrototypeKeys :: "string list" where
  "objectPrototypeKeys =
     [''constructor'', ''hasOwnProperty'', ''isPrototypeOf'', ''propertyIsEnumerable'',
      ''toLocaleString'', ''toString'', ''valueOf'', ''__proto__'', ''__defineGetter__'',
      ''__defineSetter__'', ''__lookupGetter__'', ''__lookupSetter__'']"

text \<open>
  \<^verbatim>\<open>Object.prototype\<close> is shared by the whole process. The flag \<open>polluted\<close> says
  whether an earlier write has given it a property \<^verbatim>\<open>line\<close> (the only property this
  code can add to it); that property holds a non-empty string, so from then on the name
  \<^verbatim>\<open>line\<close> is inherited too, and truthy.
\<close>

definition inherited :: "bool \<Rightarrow> string \<Rightarrow> bool" where
  "inherited polluted k \<longleftrightarrow> k \<in> set objectPrototypeKeys \<or> (polluted \<and> k = ''line'')"

text \<open>\<^verbatim>\<open>obj[k] = v\<close> on own properties: replace in place, or append a new property.\<close>

fun set_own :: "string \<Rightarrow> 'a \<Rightarrow> (string \<times> 'a) list \<Rightarrow> (string \<times> 'a) list" where
  "set_own k v [] = [(k, v)]"
| "set_own k v ((k', v') # kvs) =
     (if k' = k then (k, v) # kvs else (k', v') # set_own k v kvs)"

text \<open>
  Lines 123-128, the callback of \<^verbatim>\<open>forEach\<close>, on the own properties of
  \<^verbatim>\<open>mergedByStorageId\<close> and the flag. First statement: when the lookup is falsy (no own
  entry and no inherited name) the entry is created as \<^verbatim>\<open>{...record, line: ""}\<close>. Second
  statement, \<^verbatim>\<open>line += "\n" + record.line\<close> on what the lookup yields: an own entry gets
  the line appended; an inherited member of \<^verbatim>\<open>Object.prototype\<close> takes the write itself
  and the own properties stay as they were (for \<^verbatim>\<open>__proto__\<close> that member is
  \<^verbatim>\<open>Object.prototype\<close>, which thereby gets its property \<^verbatim>\<open>line\<close>); the inherited
  string under \<^verbatim>\<open>line\<close> is a primitive, and the write to its property throws a
  TypeError in a module, which is strict code.
\<close>

definition merge_record ::
  "(string \<times> identity_normalized) list \<Rightarrow> bool \<Rightarrow> identity_normalized \<Rightarrow>
   error + (string \<times> identity_normalized) list \<times> bool" where
  "merge_record merged polluted record =
     (let merged1 =
        (if map_of merged (storage_id record) = None \<and> \<not> inherited polluted (storage_id record)
         then set_own (storage_id record) (record\<lparr>line := []\<rparr>) merged
         else merged)
      in (case map_of merged1 (storage_id record) of
            Some m \<Rightarrow>
              Inr (set_own (storage_id record)
                     (m\<lparr>line := line m @ [CHR 0x0A] @ line record\<rparr>) merged1,
                   polluted)
          | None \<Rightarrow>
              if storage_id record \<in> set objectPrototypeKeys
              then Inr (merged1, polluted \<or> storage_id record = ''__proto__'')
              else Inl TypeError))"

text \<open>
  The \<^verbatim>\<open>forEach\<close> itself, from the own properties and the flag it starts with; a throw
  ends it (the flag is then set, since only a polluted prototype makes the callback
  throw).
\<close>

fun mergeByStorageId ::
  "(string \<times> identity_normalized) list \<Rightarrow> bool \<Rightarrow> identity_normalized list \<Rightarrow>
   error + (string \<times> identity_normalized) list \<times> bool" where
  "mergeByStorageId merged polluted [] = Inr (merged, polluted)"
| "mergeByStorageId merged polluted (record # normalizedRecords) =
     (case merge_record merged polluted record of
        Inl e \<Rightarrow> Inl e
      | Inr (merged1, polluted1) \<Rightarrow> mergeByStorageId merged1 polluted1 normalizedRecords)"

text \<open>
  \<^verbatim>\<open>Object.values\<close> lists the properties whose names are array indices (canonical
  decimal numerals below \<open>2^32 - 1\<close>) first, in ascending numeric order, and then the
  other properties in creation order.
\<close>

definition digit_value :: "char \<Rightarrow> nat" where
  "digit_value c = of_char c - 48"

definition is_digit :: "char \<Rightarrow> bool" where
  "is_digit c \<longleftrightarrow> (48::nat) \<le> of_char c \<and> of_char c \<le> (57::nat)"

definition nat_of_digits :: "string \<Rightarrow> nat" where
  "nat_of_digits s = foldl (\<lambda>n c. 10 * n + digit_value c) 0 s"

definition array_index :: "string \<Rightarrow> nat option" where
  "array_index k =
     (if k \<noteq> [] \<and> list_all is_digit k \<and> (k = ''0'' \<or> hd k \<noteq> CHR ''0'')
         \<and> nat_of_digits k < 4294967295
      then Some (nat_of_digits k) else None)"

definition objectValues :: "(string \<times> 'a) list \<Rightarrow> 'a list" where
  "objectValues obj =
     map snd
       (sort_key (\<lambda>p. case array_index (fst p) of Some i \<Rightarrow> i | None \<Rightarrow> 0)
          (filter (\<lambda>p. array_index (fst p) \<noteq> None) obj)
        @ filter (\<lambda>p. array_index (fst p) = None) obj)"

text \<open>
  \<^verbatim>\<open>String.prototype.trim\<close> removes white space and line terminators at both ends; these
  are the ones among the code units up to 255.
\<close>

definition js_whitespace :: "char \<Rightarrow> bool" where
  "js_whitespace c \<longleftrightarrow> (of_char c :: nat) \<in> {9, 10, 11, 12, 13, 32, 160}"

definition trim :: "string \<Rightarrow> string" where
  "trim s = rev (dropWhile js_whitespace (rev (dropWhile js_whitespace s)))"

text \<open>The decimal numeral of a non-negative integer, as a template literal prints it.\<close>

fun decimal :: "nat \<Rightarrow> string" where
  "decimal n =
     (if n < 10 then [char_of (48 + n)]
      else decimal (n div 10) @ [char_of (48 + n mod 10)])"

text \<open>Lines 132-142, the callback of the second \<^verbatim>\<open>map\<close>.\<close>

definition truncate_line :: "identity_normalized \<Rightarrow> identity_normalized" where
  "truncate_line record =
     (let l = trim (line record)
      in record\<lparr>line :=
           (if length l > 128
            then take 128 l @ ''...(More '' @ decimal (length l - 128) @ '' characters)''
            else l)\<rparr>)"

definition json_of_identity :: "identity_normalized \<Rightarrow> json" where
  "json_of_identity record =
     JObj [(''line'', JStr (line record)), (''system_id'', JStr (system_id record)),
           (''storage_id'', JStr (storage_id record)), (''bucket'', JStr (bucket record)),
           (''filename'', JStr (filename record)), (''date'', JStr (date record))]"

text \<open>
  The whole function: it takes the flag of the prototype and the registry as the process
  has them, and returns the normalized array with the registry and the flag as it leaves
  them, or throws.
\<close>

definition normalizeIdentityRecords ::
  "bool \<Rightarrow> registry \<Rightarrow> identity_record list \<Rightarrow> error + json \<times> registry \<times> bool" where
  "normalizeIdentityRecords polluted r allRecords =
     (case mergeByStorageId [] polluted (map project_identity allRecords) of
        Inl e \<Rightarrow> Inl e
      | Inr (merged, polluted1) \<Rightarrow>
          (let (t, r1) =
             normalizeIntelxId r
               (JArr (map json_of_identity (map truncate_line (objectValues merged))))
           in Inr (t, r1, polluted1)))"

section \<open>The search clients (src/lib/identity-client.ts and the IntelX client)\<close>

text \<open>
  The upstream is a script: the reply to the submit call and the replies to the poll
  calls, in order. A reply that is not \<^verbatim>\<open>response.ok\<close> makes the client throw. The calls
  a run issues are logged in order; the rate limiter and the one-second wait between
  rounds only delay a call and are left out.
\<close>

datatype call = Submit | Poll string int | Terminate string

datatype 'a http = HttpError | HttpOk 'a

datatype submit_response = SearchResponse (resp_id: string) (resp_status: int)

datatype 'r result_response = ResultResponse (status: int) (records: "'r list option")

datatype 's phonebook_response = PhonebookResultResponse (pb_status: int) (selectors: "'s list")

text \<open>
  How a run ends: with a thrown error, or by leaving the loop with the accumulated
  records, the budget left, the status of the last round and the calls issued. A run
  whose script ends while the loop still polls has no outcome (\<open>None\<close>).
\<close>

datatype 'r run =
    Thrown error (calls: "call list")
  | Returned (allRecords: "'r list") (remaining: int) (lastStatus: int) (calls: "call list")

text \<open>
  \<^verbatim>\<open>SEARCH_STATUS\<close> is imported from constants.js; the values of its three members
  are a parameter of the model.
\<close>

record search_status =
  SUCCESS :: int
  NO_MORE_RESULTS :: int
  NOT_FOUND :: int

text \<open>\<^verbatim>\<open>x || d\<close> on an optional number: the default replaces undefined and 0.\<close>

definition or_default :: "int option \<Rightarrow> int \<Rightarrow> int" where
  "or_default x d = (case x of None \<Rightarrow> d | Some n \<Rightarrow> if n = 0 then d else n)"

definition has_terminate :: "call list \<Rightarrow> bool" where
  "has_terminate cs = list_ex (\<lambda>c. case c of Terminate h \<Rightarrow> True | _ \<Rightarrow> False) cs"

definition has_poll :: "call list \<Rightarrow> bool" where
  "has_poll cs = list_ex (\<lambda>c. case c of Poll h n \<Rightarrow> True | _ \<Rightarrow> False) cs"

subsection \<open>IntelXClient\<close>

text \<open>\<^verbatim>\<open>intelligentSearch\<close> (lines 50-88) and \<^verbatim>\<open>phonebookSearch\<close> (lines 149-183).\<close>

definition intelligentSearch :: "submit_response http \<Rightarrow> error + string" where
  "intelligentSearch reply =
     (case reply of
        HttpError \<Rightarrow> Inl ApiError
      | HttpOk data \<Rightarrow> if resp_status data = 1 then Inl InvalidSearchTerm else Inr (resp_id data))"

definition phonebookSearch :: "submit_response http \<Rightarrow> error + string" where
  "phonebookSearch reply =
     (case reply of HttpError \<Rightarrow> Inl ApiError | HttpOk data \<Rightarrow> Inr (resp_id data))"

text \<open>The loop of \<^verbatim>\<open>search\<close> (lines 117-144), one equation per round.\<close>

fun search_poll ::
  "search_status \<Rightarrow> string \<Rightarrow> int \<Rightarrow> 'r list \<Rightarrow> call list \<Rightarrow>
   'r result_response http list \<Rightarrow> 'r run option" where
  "search_poll S searchId maxresults all cs [] = None"
| "search_poll S searchId maxresults all cs (reply # script) =
     (let cs1 = cs @ [Poll searchId maxresults]
      in case reply of
           HttpError \<Rightarrow> Some (Thrown ApiError cs1)
         | HttpOk results \<Rightarrow>
             (let all1 = (case records results of Some rs \<Rightarrow> all @ rs | None \<Rightarrow> all);
                  maxresults1 =
                    (case records results of
                       Some rs \<Rightarrow> maxresults - int (length rs)
                     | None \<Rightarrow> maxresults)
              in if status results = SUCCESS S
                    \<and> (records results = None \<or> records results = Some [])
                 then search_poll S searchId maxresults1 all1 cs1 script
                 else if status results = NO_MORE_RESULTS S \<or> status results = NOT_FOUND S
                         \<or> maxresults1 \<le> 0
                 then Some (Returned all1 maxresults1 (status results)
                              (if maxresults1 \<le> 0 then cs1 @ [Terminate searchId] else cs1))
                 else search_poll S searchId maxresults1 all1 cs1 script))"

definition IntelXClient_search ::
  "search_status \<Rightarrow> int option \<Rightarrow> submit_response http \<Rightarrow>
   'r result_response http list \<Rightarrow> 'r run option" where
  "IntelXClient_search S maxresults submit script =
     (case intelligentSearch submit of
        Inl e \<Rightarrow> Some (Thrown e [Submit])
      | Inr searchId \<Rightarrow> search_poll S searchId (or_default maxresults 100) [] [Submit] script)"

text \<open>
  The loop of \<^verbatim>\<open>phonebookSearchComplete\<close> (lines 211-228); it keeps every round's
  response.
\<close>

fun phonebook_poll ::
  "search_status \<Rightarrow> string \<Rightarrow> int \<Rightarrow> 's phonebook_response list \<Rightarrow> call list \<Rightarrow>
   's phonebook_response http list \<Rightarrow> 's phonebook_response run option" where
  "phonebook_poll S searchId maxresults all cs [] = None"
| "phonebook_poll S searchId maxresults all cs (reply # script) =
     (let cs1 = cs @ [Poll searchId maxresults]
      in case reply of
           HttpError \<Rightarrow> Some (Thrown ApiError cs1)
         | HttpOk results \<Rightarrow>
             (let all1 = all @ [results];
                  maxresults1 = maxresults - int (length (selectors results))
              in if pb_status results = NO_MORE_RESULTS S \<or> pb_status results = NOT_FOUND S
                    \<or> maxresults1 \<le> 0
                 then Some (Returned all1 maxresults1 (pb_status results)
                              (if maxresults1 \<le> 0 then cs1 @ [Terminate searchId] else cs1))
                 else phonebook_poll S searchId maxresults1 all1 cs1 script))"

definition phonebookSearchComplete ::
  "search_status \<Rightarrow> int option \<Rightarrow> submit_response http \<Rightarrow>
   's phonebook_response http list \<Rightarrow> 's phonebook_response run option" where
  "phonebookSearchComplete S maxresults submit script =
     (case phonebookSearch submit of
        Inl e \<Rightarrow> Some (Thrown e [Submit])
      | Inr searchId \<Rightarrow> phonebook_poll S searchId (or_default maxresults 1000) [] [Submit] script)"

subsection \<open>IdentityClient\<close>

text \<open>
  The submit part of \<^verbatim>\<open>search\<close> (lines 54-68) and of \<^verbatim>\<open>exportAccounts\<close>
  (lines 155-169): the only check on the response is the length of the identifier.
\<close>

definition identity_submit :: "submit_response http \<Rightarrow> error + string" where
  "identity_submit reply =
     (case reply of
        HttpError \<Rightarrow> Inl ApiError
      | HttpOk data \<Rightarrow> if length (resp_id data) \<le> 3 then Inl InvalidSearchId else Inr (resp_id data))"

text \<open>The loop of \<^verbatim>\<open>search\<close> (lines 73-97).\<close>

fun identity_poll ::
  "string \<Rightarrow> int \<Rightarrow> 'r list \<Rightarrow> call list \<Rightarrow> 'r result_response http list \<Rightarrow>
   'r run option" where
  "identity_poll searchId maxresults all cs [] = None"
| "identity_poll searchId maxresults all cs (reply # script) =
     (let cs1 = cs @ [Poll searchId maxresults]
      in case reply of
           HttpError \<Rightarrow> Some (Thrown ApiError cs1)
         | HttpOk results \<Rightarrow>
             (let taken = (status results = 0 \<and> records results \<noteq> None);
                  all1 = (case records results of
                            Some rs \<Rightarrow> if taken then all @ rs else all
                          | None \<Rightarrow> all);
                  maxresults1 =
                    (case records results of
                       Some rs \<Rightarrow> if taken then maxresults - int (length rs) else maxresults
                     | None \<Rightarrow> maxresults)
              in if status results = 2 \<or> maxresults1 \<le> 0
                 then Some (Returned
                              (case records results of Some rs \<Rightarrow> all1 @ rs | None \<Rightarrow> all1)
                              maxresults1 (status results)
                              (if maxresults1 \<le> 0 then cs1 @ [Terminate searchId] else cs1))
                 else if status results = 3
                 then Some (Returned all1 maxresults1 (status results)
                              (cs1 @ [Terminate searchId]))
                 else identity_poll searchId maxresults1 all1 cs1 script))"

definition IdentityClient_search ::
  "int option \<Rightarrow> submit_response http \<Rightarrow> 'r result_response http list \<Rightarrow> 'r run option" where
  "IdentityClient_search limit submit script =
     (case identity_submit submit of
        Inl e \<Rightarrow> Some (Thrown e [Submit])
      | Inr searchId \<Rightarrow> identity_poll searchId (or_default limit 100) [] [Submit] script)"

text \<open>The loop of \<^verbatim>\<open>exportAccounts\<close> (lines 174-190).\<close>

fun export_poll ::
  "string \<Rightarrow> int \<Rightarrow> 'r list \<Rightarrow> call list \<Rightarrow> 'r result_response http list \<Rightarrow>
   'r run option" where
  "export_poll searchId remaining0 all cs [] = None"
| "export_poll searchId remaining0 all cs (reply # script) =
     (let cs1 = cs @ [Poll searchId remaining0]
      in case reply of
           HttpError \<Rightarrow> Some (Thrown ApiError cs1)
         | HttpOk results \<Rightarrow>
             (let taken = (status results = 0 \<and> records results \<noteq> None);
                  all1 = (case records results of
                            Some rs \<Rightarrow> if taken then all @ rs else all
                          | None \<Rightarrow> all);
                  remaining1 =
                    (case records results of
                       Some rs \<Rightarrow> if taken then remaining0 - int (length rs) else remaining0
                     | None \<Rightarrow> remaining0)
              in if status results = 2 \<or> remaining1 \<le> 0
                 then Some (Returned all1 remaining1 (status results)
                              (if remaining1 \<le> 0 then cs1 @ [Terminate searchId] else cs1))
                 else export_poll searchId remaining1 all1 cs1 script))"

definition exportAccounts ::
  "int option \<Rightarrow> submit_response http \<Rightarrow> 'r result_response http list \<Rightarrow> 'r run option" where
  "exportAccounts maxresults submit script =
     (case identity_submit submit of
        Inl e \<Rightarrow> Some (Thrown e [Submit])
      | Inr searchId \<Rightarrow>
          export_poll searchId (case maxresults of None \<Rightarrow> 100 | Some n \<Rightarrow> n) [] [Submit] script)"

section \<open>The handlers that take a pseudonymized identifier\<close>

text \<open>
  Each handler is followed up to its upstream call: the result is the error it throws or
  the call it issues, with the identifier and the bucket the call carries (the other
  arguments are passed through as given). An identifier argument of a call is optional
  where the handler can pass \<^verbatim>\<open>undefined\<close>.
\<close>

datatype upstream_call =
    FilePreview string string
  | FileView string string
  | FileRead "string option" string
  | FileTreeView string "string option" "string option"
  | GetSelectors string

text \<open>
  A tool handler starts with the \<^verbatim>\<open>parse\<close> of its schema (src/lib/validators.ts),
  which throws a ZodError on a request that does not pass. The schemas are given on the
  arguments followed here, for an identifier that is an integer (as the registry hands
  them out) and a bucket that is a string; the other fields of a request are taken to
  pass.
\<close>

definition filePreviewSchema :: "int \<Rightarrow> string \<Rightarrow> bool" where
  "filePreviewSchema storage_id_arg bucket_arg \<longleftrightarrow> 1 \<le> storage_id_arg \<and> bucket_arg \<noteq> []"

definition fileViewSchema :: "int \<Rightarrow> string \<Rightarrow> bool" where
  "fileViewSchema storage_id_arg bucket_arg \<longleftrightarrow> 1 \<le> storage_id_arg \<and> bucket_arg \<noteq> []"

definition fileReadSchema :: "int \<Rightarrow> string \<Rightarrow> bool" where
  "fileReadSchema system_id_arg bucket_arg \<longleftrightarrow> 1 \<le> system_id_arg \<and> bucket_arg \<noteq> []"

definition getSelectorsSchema :: "int \<Rightarrow> bool" where
  "getSelectorsSchema system_id_arg \<longleftrightarrow> 1 \<le> system_id_arg"

text \<open>An optional number is truthy when it is given and not 0.\<close>

definition truthy :: "int option \<Rightarrow> bool" where
  "truthy x = (case x of None \<Rightarrow> False | Some n \<Rightarrow> n \<noteq> 0)"

definition fileTreeViewSchema :: "string \<Rightarrow> int option \<Rightarrow> int option \<Rightarrow> bool" where
  "fileTreeViewSchema bucket_arg storage_id_arg system_id_arg \<longleftrightarrow>
     bucket_arg \<noteq> [] \<and> (truthy storage_id_arg \<or> truthy system_id_arg)"

text \<open>
  The tool handlers \<^verbatim>\<open>intelx_file_preview\<close>, \<^verbatim>\<open>intelx_file_view\<close>,
  \<^verbatim>\<open>intelx_file_read\<close> and \<^verbatim>\<open>intelx_get_selectors\<close>: parse, resolve, throw when the
  result is falsy (undefined or the empty string), call otherwise.
\<close>

definition resolve_or_throw :: "string \<Rightarrow> int \<Rightarrow> registry \<Rightarrow> error + string" where
  "resolve_or_throw field n r =
     (case getOriginalUuid field n r of
        None \<Rightarrow> Inl InvalidIdentifier
      | Some original \<Rightarrow> if original = [] then Inl InvalidIdentifier else Inr original)"

definition intelx_file_preview :: "registry \<Rightarrow> int \<Rightarrow> string \<Rightarrow> error + upstream_call" where
  "intelx_file_preview r storage_id_arg bucket_arg =
     (if filePreviewSchema storage_id_arg bucket_arg
      then (case resolve_or_throw ''storageid'' storage_id_arg r of
              Inl e \<Rightarrow> Inl e
            | Inr originalStorageId \<Rightarrow> Inr (FilePreview originalStorageId bucket_arg))
      else Inl ZodError)"

definition intelx_file_view :: "registry \<Rightarrow> int \<Rightarrow> string \<Rightarrow> error + upstream_call" where
  "intelx_file_view r storage_id_arg bucket_arg =
     (if fileViewSchema storage_id_arg bucket_arg
      then (case resolve_or_throw ''storageid'' storage_id_arg r of
              Inl e \<Rightarrow> Inl e
            | Inr originalStorageId \<Rightarrow> Inr (FileView originalStorageId bucket_arg))
      else Inl ZodError)"

definition intelx_file_read :: "registry \<Rightarrow> int \<Rightarrow> string \<Rightarrow> error + upstream_call" where
  "intelx_file_read r system_id_arg bucket_arg =
     (if fileReadSchema system_id_arg bucket_arg
      then (case resolve_or_throw ''systemid'' system_id_arg r of
              Inl e \<Rightarrow> Inl e
            | Inr originalSystemId \<Rightarrow> Inr (FileRead (Some originalSystemId) bucket_arg))
      else Inl ZodError)"

definition intelx_get_selectors :: "registry \<Rightarrow> int \<Rightarrow> error + upstream_call" where
  "intelx_get_selectors r system_id_arg =
     (if getSelectorsSchema system_id_arg
      then (case resolve_or_throw ''systemid'' system_id_arg r of
              Inl e \<Rightarrow> Inl e
            | Inr originalSystemId \<Rightarrow> Inr (GetSelectors originalSystemId))
      else Inl ZodError)"

text \<open>
  \<^verbatim>\<open>intelx_file_treeview\<close>: after the parse, each of the two identifiers is resolved
  only when it is truthy.
\<close>

definition resolve_if_given :: "string \<Rightarrow> int option \<Rightarrow> registry \<Rightarrow> error + string option" where
  "resolve_if_given field arg r =
     (case arg of
        None \<Rightarrow> Inr None
      | Some n \<Rightarrow>
          if n = 0 then Inr None
          else (case resolve_or_throw field n r of
                  Inl e \<Rightarrow> Inl e
                | Inr original \<Rightarrow> Inr (Some original)))"

definition intelx_file_treeview ::
  "registry \<Rightarrow> string \<Rightarrow> int option \<Rightarrow> int option \<Rightarrow> error + upstream_call" where
  "intelx_file_treeview r bucket_arg storage_id_arg system_id_arg =
     (if fileTreeViewSchema bucket_arg storage_id_arg system_id_arg
      then (case resolve_if_given ''storageid'' storage_id_arg r of
              Inl e \<Rightarrow> Inl e
            | Inr originalStorageId \<Rightarrow>
                (case resolve_if_given ''systemid'' system_id_arg r of
                   Inl e \<Rightarrow> Inl e
                 | Inr originalSystemId \<Rightarrow>
                     Inr (FileTreeView bucket_arg originalStorageId originalSystemId)))
      else Inl ZodError)"

text \<open>
  The resource handlers \<^verbatim>\<open>intelx://file/{systemId}/{bucket}\<close> and
  \<^verbatim>\<open>intelx://tree/{storageId}/{bucket}\<close>. A URI variable is a string: absent or empty
  (falsy), or a string whose conversion \<^verbatim>\<open>+systemId\<close> is a number or NaN. The result of
  \<^verbatim>\<open>getOriginalUuid\<close> is passed on under a type cast, without a test.
\<close>

datatype uri_variable = Absent | NotANumber | Numeric int

definition resolve_variable :: "string \<Rightarrow> uri_variable \<Rightarrow> registry \<Rightarrow> string option" where
  "resolve_variable field v r =
     (case v of Numeric n \<Rightarrow> getOriginalUuid field n r | _ \<Rightarrow> None)"

definition file_resource :: "registry \<Rightarrow> uri_variable \<Rightarrow> string \<Rightarrow> error + upstream_call" where
  "file_resource r systemId bucket_arg =
     (if systemId = Absent \<or> bucket_arg = [] then Inl MissingParameters
      else Inr (FileRead (resolve_variable ''systemid'' systemId r) bucket_arg))"

definition tree_resource :: "registry \<Rightarrow> uri_variable \<Rightarrow> string \<Rightarrow> error + upstream_call" where
  "tree_resource r storageId bucket_arg =
     (if storageId = Absent \<or> bucket_arg = [] then Inl MissingParameters
      else Inr (FileTreeView bucket_arg (resolve_variable ''storageid'' storageId r) None))"

section \<open>The registry: invariant and growth\<close>

lemma registry_le_refl: "registry_le r r"
  by (simp add: registry_le_def)

lemma registry_le_trans: "registry_le a b \<Longrightarrow> registry_le b c \<Longrightarrow> registry_le a c"
  by (simp add: registry_le_def)

lemma initial_registry_inv: "registry_inv initial_registry"
  by (simp add: registry_inv_def initial_registry_def)

lemma assign_inv:
  assumes "registry_inv r"
  shows "registry_inv (snd (assign field v r))"
proof (cases "uuidToIdMaps r field v")
  case (Some n)
  then show ?thesis using assms by (simp add: assign_def)
next
  case None
  define c where "c = counters r field"
  define r' where
    "r' = r\<lparr>counters := (counters r)(field := c + 1),
            uuidToIdMaps := (uuidToIdMaps r)(field := (uuidToIdMaps r field)(v \<mapsto> c)),
            idToUuidMaps := (idToUuidMaps r)(field := (idToUuidMaps r field)(c \<mapsto> v))\<rparr>"
  have eq: "snd (assign field v r) = r'"
    by (simp add: assign_def None Let_def r'_def c_def)
  have cnt: "\<And>f. 1 \<le> counters r f"
    using assms unfolding registry_inv_def by blast
  have fwd: "\<And>f w n. uuidToIdMaps r f w = Some n \<Longrightarrow>
      idToUuidMaps r f n = Some w \<and> 1 \<le> n \<and> n < counters r f"
    using assms unfolding registry_inv_def by blast
  have bwd: "\<And>f n w. idToUuidMaps r f n = Some w \<Longrightarrow> uuidToIdMaps r f w = Some n"
    using assms unfolding registry_inv_def by blast
  have fresh: "idToUuidMaps r field c = None"
  proof (cases "idToUuidMaps r field c")
    case (Some w)
    from fwd[OF bwd[OF Some]] show ?thesis by (simp add: c_def)
  qed simp
  have 1: "1 \<le> counters r' f" for f
    using cnt[of f] cnt[of field] by (simp add: r'_def c_def)
  have 2: "idToUuidMaps r' f n = Some w \<and> 1 \<le> n \<and> n < counters r' f"
    if h: "uuidToIdMaps r' f w = Some n" for f w n
  proof (cases "f = field \<and> w = v")
    case True
    then have "n = c" using h by (simp add: r'_def)
    then show ?thesis using True cnt[of field] by (simp add: r'_def c_def)
  next
    case False
    then have old: "uuidToIdMaps r f w = Some n"
      using h by (auto simp: r'_def split: if_splits)
    note o = fwd[OF old]
    have "n \<noteq> c" if "f = field" using o that fresh by auto
    then show ?thesis using o by (auto simp: r'_def c_def)
  qed
  have 3: "uuidToIdMaps r' f w = Some n" if h: "idToUuidMaps r' f n = Some w" for f n w
  proof (cases "f = field \<and> n = c")
    case True
    then have "w = v" using h by (simp add: r'_def)
    then show ?thesis using True by (simp add: r'_def)
  next
    case False
    then have old: "idToUuidMaps r f n = Some w"
      using h by (auto simp: r'_def split: if_splits)
    note o = bwd[OF old]
    have "w \<noteq> v" if "f = field" using o that None by auto
    then show ?thesis using o by (auto simp: r'_def)
  qed
  show ?thesis
    unfolding eq registry_inv_def using 1 2 3 by blast
qed

lemma assign_le: "registry_le r (snd (assign field v r))"
  by (auto simp: registry_le_def assign_def Let_def split: option.splits)

lemma assign_result: "assign field v r = (n, r') \<Longrightarrow> uuidToIdMaps r' field v = Some n"
  by (auto simp: assign_def Let_def split: option.splits)

lemma assign_known: "uuidToIdMaps r field v = Some n \<Longrightarrow> assign field v r = (n, r)"
  by (simp add: assign_def)

lemma assign_other:
  assumes "registry_inv r" "uuidToIdMaps r field a = Some n" "a \<noteq> b"
  shows "fst (assign field b r) \<noteq> n"
proof (cases "uuidToIdMaps r field b")
  case None
  have "n < counters r field"
    using assms(1,2) unfolding registry_inv_def by blast
  then show ?thesis using None by (simp add: assign_def Let_def)
next
  case (Some m)
  have "idToUuidMaps r field m = Some b"
    using assms(1) Some unfolding registry_inv_def by blast
  moreover have "idToUuidMaps r field n = Some a"
    using assms(1,2) unfolding registry_inv_def by blast
  ultimately have "m \<noteq> n" using assms(3) by auto
  then show ?thesis using Some by (simp add: assign_def)
qed

lemma proto_not_field: "key \<in> set TRANSITION_FIELDS \<Longrightarrow> key \<noteq> ''__proto__''"
  by (auto simp: TRANSITION_FIELDS_def)

text \<open>
  The value an entry of an object is replaced by: the branch of the forward walk on one
  (key, value) pair.
\<close>

lemma entry_cases:
  obtains (pseudonymized) s where "val = JStr s" "key \<in> set TRANSITION_FIELDS"
      "(case val of
          JStr s \<Rightarrow>
            if key \<in> set TRANSITION_FIELDS
            then (let (n, r') = assign key s r in (JNum n, r'))
            else normalizeIntelxId r val
        | _ \<Rightarrow> normalizeIntelxId r val) = (JNum (fst (assign key s r)), snd (assign key s r))"
  | (scanned) "\<not> (is_string val \<and> key \<in> set TRANSITION_FIELDS)"
      "(case val of
          JStr s \<Rightarrow>
            if key \<in> set TRANSITION_FIELDS
            then (let (n, r') = assign key s r in (JNum n, r'))
            else normalizeIntelxId r val
        | _ \<Rightarrow> normalizeIntelxId r val) = normalizeIntelxId r val"
  by (cases val) (auto simp: is_string_def split_beta)

lemma normalize_inv:
  "registry_inv r \<Longrightarrow> registry_inv (snd (normalizeIntelxId r t))"
  "registry_inv r \<Longrightarrow> registry_inv (snd (normalize_array r ts))"
  "registry_inv r \<Longrightarrow> registry_inv (snd (normalize_entries r kvs))"
proof (induction r t and r ts and r kvs
    rule: normalizeIntelxId_normalize_array_normalize_entries.induct)
  case (5 r x xs)
  obtain y r1 where e: "normalizeIntelxId r x = (y, r1)"
    by (cases "normalizeIntelxId r x")
  have "registry_inv r1" using "5.IH"(1) "5.prems" e by simp
  then have "registry_inv (snd (normalize_array r1 xs))"
    using "5.IH"(2)[OF refl e[symmetric]] by simp
  then show ?case using e by (simp add: split_beta)
next
  case (7 r key val kvs)
  show ?case
  proof (cases rule: entry_cases[of val key r])
    case (pseudonymized s)
    have "registry_inv (snd (assign key s r))" using "7.prems" by (rule assign_inv)
    then have "registry_inv (snd (normalize_entries (snd (assign key s r)) kvs))"
      using "7.IH"(7)[OF refl pseudonymized(3)[symmetric]] by simp
    then show ?thesis using pseudonymized by (simp add: split_beta)
  next
    case scanned
    obtain y r1 where e: "normalizeIntelxId r val = (y, r1)"
      by (cases "normalizeIntelxId r val")
    have "registry_inv (snd (normalizeIntelxId r val))"
      using "7.IH"(1-6) "7.prems" scanned(1) by (cases val) (auto simp: is_string_def)
    then have "registry_inv r1" using e by simp
    then have "registry_inv (snd (normalize_entries r1 kvs))"
      using "7.IH"(7)[OF refl] scanned(2) e by simp
    then show ?thesis using scanned(2) e by (simp add: split_beta)
  qed
qed (simp_all add: split_beta)

lemma normalize_le:
  "registry_le r (snd (normalizeIntelxId r t))"
  "registry_le r (snd (normalize_array r ts))"
  "registry_le r (snd (normalize_entries r kvs))"
proof (induction r t and r ts and r kvs
    rule: normalizeIntelxId_normalize_array_normalize_entries.induct)
  case (5 r x xs)
  obtain y r1 where e: "normalizeIntelxId r x = (y, r1)"
    by (cases "normalizeIntelxId r x")
  have "registry_le r r1" using "5.IH"(1) e by simp
  moreover have "registry_le r1 (snd (normalize_array r1 xs))"
    using "5.IH"(2)[OF refl e[symmetric]] by simp
  ultimately show ?case using e by (auto simp: split_beta intro: registry_le_trans)
next
  case (7 r key val kvs)
  show ?case
  proof (cases rule: entry_cases[of val key r])
    case (pseudonymized s)
    have "registry_le r (snd (assign key s r))" by (rule assign_le)
    moreover have "registry_le (snd (assign key s r))
        (snd (normalize_entries (snd (assign key s r)) kvs))"
      using "7.IH"(7)[OF refl pseudonymized(3)[symmetric]] by simp
    ultimately show ?thesis
      using pseudonymized by (auto simp: split_beta intro: registry_le_trans)
  next
    case scanned
    obtain y r1 where e: "normalizeIntelxId r val = (y, r1)"
      by (cases "normalizeIntelxId r val")
    have "registry_le r (snd (normalizeIntelxId r val))"
      using "7.IH"(1-6) scanned(1) by (cases val) (auto simp: is_string_def)
    then have "registry_le r r1" using e by simp
    moreover have "registry_le r1 (snd (normalize_entries r1 kvs))"
      using "7.IH"(7)[OF refl] scanned(2) e by simp
    ultimately show ?thesis
      using scanned(2) e by (auto simp: split_beta intro: registry_le_trans)
  qed
qed (simp_all add: split_beta registry_le_refl)

lemma normalize_all_inv: "registry_inv r \<Longrightarrow> registry_inv (normalize_all r ts)"
  by (induction ts arbitrary: r) (simp_all add: normalize_inv(1))

lemma normalize_all_le: "registry_le r (normalize_all r ts)"
proof (induction ts arbitrary: r)
  case Nil
  show ?case by (simp add: registry_le_refl)
next
  case (Cons t ts)
  show ?case
    using normalize_le(1)[of r t] Cons[of "snd (normalizeIntelxId r t)"]
    by (auto intro: registry_le_trans)
qed

lemma reachable_inv: "registry_inv (normalize_all initial_registry ts)"
  by (rule normalize_all_inv[OF initial_registry_inv])

section \<open>The forward walk settles a tree\<close>

lemma normalize_settled:
  "settled (fst (normalizeIntelxId r t))"
  "settled_array (fst (normalize_array r ts))"
  "settled_entries (fst (normalize_entries r kvs))"
proof (induction r t and r ts and r kvs
    rule: normalizeIntelxId_normalize_array_normalize_entries.induct)
  case (5 r x xs)
  obtain y r1 where e: "normalizeIntelxId r x = (y, r1)"
    by (cases "normalizeIntelxId r x")
  have "settled y" using "5.IH"(1) e by simp
  moreover have "settled_array (fst (normalize_array r1 xs))"
    using "5.IH"(2)[OF refl e[symmetric]] by simp
  ultimately show ?case using e by (simp add: split_beta)
next
  case (7 r key val kvs)
  show ?case
  proof (cases rule: entry_cases[of val key r])
    case (pseudonymized s)
    have "settled_entries (fst (normalize_entries (snd (assign key s r)) kvs))"
      using "7.IH"(7)[OF refl pseudonymized(3)[symmetric]] by simp
    then show ?thesis
      using pseudonymized proto_not_field[of key] by (simp add: split_beta is_string_def)
  next
    case scanned
    obtain y r1 where e: "normalizeIntelxId r val = (y, r1)"
      by (cases "normalizeIntelxId r val")
    have "settled (fst (normalizeIntelxId r val))"
      using "7.IH"(1-6) scanned(1) by (cases val) (auto simp: is_string_def)
    then have a: "settled y" using e by simp
    have b: "\<not> (key \<in> set TRANSITION_FIELDS \<and> is_string y)"
      using scanned(1) e by (cases val) (auto simp: split_beta is_string_def)
    have "settled_entries (fst (normalize_entries r1 kvs))"
      using "7.IH"(7)[OF refl] scanned(2) e by simp
    then show ?thesis using scanned(2) e a b by (simp add: split_beta)
  qed
qed (simp_all add: split_beta)

lemma settled_fixed:
  "settled t \<Longrightarrow> normalizeIntelxId r t = (t, r)"
  "settled_array ts \<Longrightarrow> normalize_array r ts = (ts, r)"
  "settled_entries kvs \<Longrightarrow> normalize_entries r kvs = (kvs, r)"
proof (induction r t and r ts and r kvs
    rule: normalizeIntelxId_normalize_array_normalize_entries.induct)
  case (7 r key val kvs)
  show ?case
  proof (cases rule: entry_cases[of val key r])
    case (pseudonymized s)
    then show ?thesis using "7.prems" by (simp add: is_string_def)
  next
    case scanned
    have v: "normalizeIntelxId r val = (val, r)"
      using "7.IH"(1-6) "7.prems" by (cases val) (auto simp: is_string_def)
    have "normalize_entries r kvs = (kvs, r)"
      using "7.IH"(7)[OF refl] scanned(2) v "7.prems" by simp
    then show ?thesis using "7.prems" scanned(2) v by simp
  qed
qed simp_all

section \<open>The reverse walk undoes the forward walk\<close>

lemma denormalize_normalize:
  "registry_inv r2 \<Longrightarrow> registry_le (snd (normalizeIntelxId r t)) r2 \<Longrightarrow>
     denormalizeIntelxId r2 (fst (normalizeIntelxId r t)) = denormalizeIntelxId r2 t"
  "registry_inv r2 \<Longrightarrow> registry_le (snd (normalize_array r ts)) r2 \<Longrightarrow>
     denormalize_array r2 (fst (normalize_array r ts)) = denormalize_array r2 ts"
  "registry_inv r2 \<Longrightarrow> registry_le (snd (normalize_entries r kvs)) r2 \<Longrightarrow>
     denormalize_entries r2 (fst (normalize_entries r kvs)) = denormalize_entries r2 kvs"
proof (induction r t and r ts and r kvs
    rule: normalizeIntelxId_normalize_array_normalize_entries.induct)
  case (1 r xs)
  then show ?case by (simp add: split_beta)
next
  case (2 r kvs)
  then show ?case by (simp add: split_beta)
next
  case (5 r x xs)
  obtain y r1 where e: "normalizeIntelxId r x = (y, r1)"
    by (cases "normalizeIntelxId r x")
  have le2: "registry_le (snd (normalize_array r1 xs)) r2"
    using "5.prems"(2) e by (simp add: split_beta)
  have "registry_le r1 r2"
    using normalize_le(2)[of r1 xs] le2 by (rule registry_le_trans)
  then have a: "denormalizeIntelxId r2 y = denormalizeIntelxId r2 x"
    using "5.IH"(1) "5.prems"(1) e by simp
  have b: "denormalize_array r2 (fst (normalize_array r1 xs)) = denormalize_array r2 xs"
    using "5.IH"(2)[OF refl e[symmetric] "5.prems"(1) le2] .
  show ?case using a b e by (simp add: split_beta)
next
  case (7 r key val kvs)
  show ?case
  proof (cases rule: entry_cases[of val key r])
    case (pseudonymized s)
    define n where "n = fst (assign key s r)"
    define r1 where "r1 = snd (assign key s r)"
    have as: "assign key s r = (n, r1)" by (simp add: n_def r1_def)
    have le2: "registry_le (snd (normalize_entries r1 kvs)) r2"
      using "7.prems"(2) pseudonymized by (simp add: split_beta r1_def)
    have le1: "registry_le r1 r2"
      using normalize_le(3)[of r1 kvs] le2 by (rule registry_le_trans)
    have b: "denormalize_entries r2 (fst (normalize_entries r1 kvs)) = denormalize_entries r2 kvs"
      using "7.IH"(7)[OF refl pseudonymized(3)[symmetric] "7.prems"(1)] le2
      by (simp add: r1_def)
    have "uuidToIdMaps r1 key s = Some n" using as by (rule assign_result)
    then have "uuidToIdMaps r2 key s = Some n" using le1 by (simp add: registry_le_def)
    then have "idToUuidMaps r2 key n = Some s"
      using "7.prems"(1) unfolding registry_inv_def by blast
    then show ?thesis
      using pseudonymized b proto_not_field[of key]
      by (simp add: split_beta Let_def n_def r1_def)
  next
    case scanned
    obtain y r1 where e: "normalizeIntelxId r val = (y, r1)"
      by (cases "normalizeIntelxId r val")
    have le2: "registry_le (snd (normalize_entries r1 kvs)) r2"
      using "7.prems"(2) scanned(2) e by (simp add: split_beta)
    have le1: "registry_le r1 r2"
      using normalize_le(3)[of r1 kvs] le2 by (rule registry_le_trans)
    have b: "denormalize_entries r2 (fst (normalize_entries r1 kvs)) = denormalize_entries r2 kvs"
      using "7.IH"(7)[OF refl _ "7.prems"(1) le2] scanned(2) e by simp
    have d: "denormalizeIntelxId r2 y = denormalizeIntelxId r2 val"
      using "7.IH"(1-6) "7.prems"(1) le1 e scanned(1)
      by (cases val) (auto simp: is_string_def)
    have num: "is_number val \<Longrightarrow> y = val"
      using e by (cases val) (auto simp: is_number_def)
    have nonum: "\<not> is_number val \<Longrightarrow> \<not> is_number y"
      using e by (cases val) (auto simp: split_beta is_number_def)
    have a: "(case y of
                JNum n \<Rightarrow>
                  if key \<in> set TRANSITION_FIELDS
                  then (case idToUuidMaps r2 key n of
                          Some original \<Rightarrow> JStr original
                        | None \<Rightarrow> JNum n)
                  else denormalizeIntelxId r2 y
              | _ \<Rightarrow> denormalizeIntelxId r2 y)
           = (case val of
                JNum n \<Rightarrow>
                  if key \<in> set TRANSITION_FIELDS
                  then (case idToUuidMaps r2 key n of
                          Some original \<Rightarrow> JStr original
                        | None \<Rightarrow> JNum n)
                  else denormalizeIntelxId r2 val
              | _ \<Rightarrow> denormalizeIntelxId r2 val)"
    proof (cases "is_number val")
      case True
      then have "y = val" by (rule num)
      then show ?thesis by (cases val) simp_all
    next
      case False
      then show ?thesis
        using nonum d by (cases val; cases y) (auto simp: is_number_def)
    qed
    show ?thesis using a b scanned(2) e by (simp add: split_beta Let_def)
  qed
qed simp_all

lemma plain_denormalize:
  "plain t \<Longrightarrow> denormalizeIntelxId r t = t"
  "plain_array ts \<Longrightarrow> denormalize_array r ts = ts"
  "plain_entries kvs \<Longrightarrow> denormalize_entries r kvs = kvs"
proof (induction r t and r ts and r kvs
    rule: denormalizeIntelxId_denormalize_array_denormalize_entries.induct)
  case (7 r key val kvs)
  then show ?case by (cases val) (auto simp: Let_def is_number_def)
qed simp_all

section \<open>Claims about the registry\<close>

text \<open>
  Claim C5. In any registry the module can be in (reached from the empty one by earlier
  normalize calls), normalize a tree, let any later normalize calls happen, and
  denormalize the result: the outcome is what denormalize makes of the original tree
  itself. The reverse walk never touches a string, so every raw string that the forward
  walk replaced by its integer is back in place. When the tree is plain (no
  pseudonymizable key holds a number, and no object has the key \<^verbatim>\<open>__proto__\<close>, whose
  entry neither walk copies) the round trip returns the tree unchanged.
\<close>

theorem denormalize_restores_pseudonymized:
  "(let r = normalize_all initial_registry earlier;
        (t', r1) = normalizeIntelxId r t;
        r2 = normalize_all r1 later
    in denormalizeIntelxId r2 t' = denormalizeIntelxId r2 t
       \<and> (plain t \<longrightarrow> denormalizeIntelxId r2 t' = t))"
proof -
  define r where "r = normalize_all initial_registry earlier"
  define r2 where "r2 = normalize_all (snd (normalizeIntelxId r t)) later"
  have inv: "registry_inv r" unfolding r_def by (rule reachable_inv)
  have inv2: "registry_inv r2"
    unfolding r2_def by (rule normalize_all_inv[OF normalize_inv(1)[OF inv]])
  have le: "registry_le (snd (normalizeIntelxId r t)) r2"
    unfolding r2_def by (rule normalize_all_le)
  have eq: "denormalizeIntelxId r2 (fst (normalizeIntelxId r t)) = denormalizeIntelxId r2 t"
    using inv2 le by (rule denormalize_normalize(1))
  have "plain t \<Longrightarrow> denormalizeIntelxId r2 (fst (normalizeIntelxId r t)) = t"
    using eq by (simp add: plain_denormalize(1))
  then show ?thesis
    using eq by (simp add: Let_def split_beta r_def r2_def)
qed

theorem denormalize_restores_pseudonymized_witness:
  "plain (JObj [(''system_id'', JStr ''sys-a''), (''name'', JStr ''doc''),
                (''children'', JArr [JObj [(''storage_id'', JStr ''st-b'')],
                                     JObj [(''storage_id'', JStr ''st-b'')]])])
   \<and> (let r = normalize_all initial_registry [JObj [(''system_id'', JStr ''other'')]];
           (t', r1) = normalizeIntelxId r
              (JObj [(''system_id'', JStr ''sys-a''), (''name'', JStr ''doc''),
                     (''children'', JArr [JObj [(''storage_id'', JStr ''st-b'')],
                                          JObj [(''storage_id'', JStr ''st-b'')]])]);
           r2 = normalize_all r1 []
       in t' = JObj [(''system_id'', JNum 2), (''name'', JStr ''doc''),
                     (''children'', JArr [JObj [(''storage_id'', JNum 1)],
                                          JObj [(''storage_id'', JNum 1)]])]
          \<and> denormalizeIntelxId r2 t' =
              JObj [(''system_id'', JStr ''sys-a''), (''name'', JStr ''doc''),
                    (''children'', JArr [JObj [(''storage_id'', JStr ''st-b'')],
                                         JObj [(''storage_id'', JStr ''st-b'')]])])"
proof -
  let ?t = "JObj [(''system_id'', JStr ''sys-a''), (''name'', JStr ''doc''),
                  (''children'', JArr [JObj [(''storage_id'', JStr ''st-b'')],
                                       JObj [(''storage_id'', JStr ''st-b'')]])]"
  have p: "plain ?t"
    by (simp add: TRANSITION_FIELDS_def is_number_def)
  have n: "fst (normalizeIntelxId
                  (normalize_all initial_registry [JObj [(''system_id'', JStr ''other'')]]) ?t)
           = JObj [(''system_id'', JNum 2), (''name'', JStr ''doc''),
                   (''children'', JArr [JObj [(''storage_id'', JNum 1)],
                                        JObj [(''storage_id'', JNum 1)]])]"
    by (simp add: TRANSITION_FIELDS_def initial_registry_def assign_def Let_def)
  show ?thesis
    using denormalize_restores_pseudonymized
            [of "[JObj [(''system_id'', JStr ''other'')]]" ?t "[]"] p n
    by (simp add: Let_def split_beta)
qed

text \<open>
  Claim C6. For a field of the fixed set: after any earlier normalize calls, ask for the
  integer of a raw string \<open>a\<close>; let any further normalize calls happen; ask for the integer
  of a raw string \<open>b\<close> in the same field. The two integers are equal exactly when the two
  raw strings are: the same string always gets the same integer, and two different
  strings never share one.
\<close>

theorem assign_stable_injective:
  assumes "field \<in> set TRANSITION_FIELDS"
  shows "fst (assign field b
               (normalize_all (snd (assign field a (normalize_all initial_registry pre))) mid))
         = fst (assign field a (normalize_all initial_registry pre))
         \<longleftrightarrow> a = b"
proof -
  define r0 where "r0 = normalize_all initial_registry pre"
  obtain n r1 where a: "assign field a r0 = (n, r1)"
    by (cases "assign field a r0")
  define r2 where "r2 = normalize_all r1 mid"
  have inv0: "registry_inv r0" unfolding r0_def by (rule reachable_inv)
  have inv1: "registry_inv r1" using assign_inv[OF inv0, of field a] a by simp
  have inv2: "registry_inv r2" unfolding r2_def by (rule normalize_all_inv[OF inv1])
  have "uuidToIdMaps r1 field a = Some n" using a by (rule assign_result)
  moreover have "registry_le r1 r2" unfolding r2_def by (rule normalize_all_le)
  ultimately have k: "uuidToIdMaps r2 field a = Some n" by (simp add: registry_le_def)
  have "fst (assign field a r2) = n" using assign_known[OF k] by simp
  moreover have "a \<noteq> b \<Longrightarrow> fst (assign field b r2) \<noteq> n" using assign_other[OF inv2 k] .
  ultimately have "fst (assign field b r2) = n \<longleftrightarrow> a = b" by auto
  then show ?thesis using a by (simp add: r0_def r2_def)
qed

theorem assign_stable_injective_witness:
  "''owner'' \<in> set TRANSITION_FIELDS
   \<and> fst (assign ''owner'' ''bob''
            (normalize_all (snd (assign ''owner'' ''alice'' (normalize_all initial_registry [])))
               [JObj [(''owner'', JStr ''carol'')]]))
     \<noteq> fst (assign ''owner'' ''alice'' (normalize_all initial_registry []))
   \<and> fst (assign ''owner'' ''alice''
            (normalize_all (snd (assign ''owner'' ''alice'' (normalize_all initial_registry [])))
               [JObj [(''owner'', JStr ''carol'')]]))
     = fst (assign ''owner'' ''alice'' (normalize_all initial_registry []))"
proof -
  have f: "''owner'' \<in> set TRANSITION_FIELDS" by (simp add: TRANSITION_FIELDS_def)
  show ?thesis
    using f assign_stable_injective[OF f, of "''bob''" "''alice''" "[]"
            "[JObj [(''owner'', JStr ''carol'')]]"]
          assign_stable_injective[OF f, of "''alice''" "''alice''" "[]"
            "[JObj [(''owner'', JStr ''carol'')]]"]
    by simp
qed

text \<open>
  Claim C10. The forward walk is idempotent: applied to its own output, in the registry
  it left, it returns that output and leaves the registry as it is. A scalar such as a
  plain string is returned as given, and a pseudonymizable field that already holds an
  integer stays untouched. So the second walk that the identity-search handler runs on
  the result of \<^verbatim>\<open>normalizeIdentityRecords\<close>, whenever that returns one, changes
  nothing.
\<close>

theorem normalizeIntelxId_idempotent:
  "normalizeIntelxId (snd (normalizeIntelxId r v)) (fst (normalizeIntelxId r v))
     = normalizeIntelxId r v
   \<and> normalizeIntelxId r (JStr s) = (JStr s, r)
   \<and> (key \<in> set TRANSITION_FIELDS \<longrightarrow>
        normalizeIntelxId r (JObj [(key, JNum n)]) = (JObj [(key, JNum n)], r))
   \<and> (normalizeIdentityRecords polluted r recs = Inr (t, r', polluted') \<longrightarrow>
        normalizeIntelxId r' t = (t, r'))"
proof -
  have twice: "normalizeIntelxId (snd (normalizeIntelxId r0 v0)) (fst (normalizeIntelxId r0 v0))
      = normalizeIntelxId r0 v0" for r0 v0
    using settled_fixed(1)[OF normalize_settled(1), of "snd (normalizeIntelxId r0 v0)" r0 v0]
    by simp
  have num: "key \<in> set TRANSITION_FIELDS \<Longrightarrow>
      normalizeIntelxId r (JObj [(key, JNum n)]) = (JObj [(key, JNum n)], r)"
    using proto_not_field[of key] by simp
  have str: "normalizeIntelxId r (JStr s) = (JStr s, r)" by simp
  have pipeline: "normalizeIntelxId r' t = (t, r')"
    if run: "normalizeIdentityRecords polluted r recs = Inr (t, r', polluted')"
  proof -
    obtain merged where
      out: "normalizeIntelxId r
              (JArr (map json_of_identity (map truncate_line (objectValues merged)))) = (t, r')"
      using run
      by (auto simp: normalizeIdentityRecords_def split_beta split: sum.splits prod.splits)
    show ?thesis
      using twice[of r "JArr (map json_of_identity (map truncate_line (objectValues merged)))"]
      unfolding out fst_conv snd_conv .
  qed
  show ?thesis
    using twice[of r v] str num pipeline by blast
qed

theorem normalizeIntelxId_idempotent_witness:
  "''owner'' \<in> set TRANSITION_FIELDS
   \<and> normalizeIntelxId initial_registry (JObj [(''owner'', JNum 7)])
       = (JObj [(''owner'', JNum 7)], initial_registry)
   \<and> normalizeIntelxId
        (snd (normalizeIntelxId initial_registry (JObj [(''owner'', JStr ''alice'')])))
        (fst (normalizeIntelxId initial_registry (JObj [(''owner'', JStr ''alice'')])))
       = normalizeIntelxId initial_registry (JObj [(''owner'', JStr ''alice'')])
   \<and> fst (normalizeIntelxId initial_registry (JObj [(''owner'', JStr ''alice'')]))
       = JObj [(''owner'', JNum 1)]
   \<and> map_sum id fst (normalizeIdentityRecords False initial_registry
         [\<lparr>item_name = ''a.txt'', item_date = ''2024-01-01'', item_bucket = ''leaks'',
           item_storageid = ''S1'', item_systemid = ''sys-1'', linea = ''foo''\<rparr>])
       = Inr (JArr [JObj [(''line'', JStr ''foo''), (''system_id'', JNum 1),
                          (''storage_id'', JNum 1), (''bucket'', JStr ''leaks''),
                          (''filename'', JStr ''a.txt''), (''date'', JStr ''2024-01-01'')]])
   \<and> (case normalizeIdentityRecords False initial_registry
         [\<lparr>item_name = ''a.txt'', item_date = ''2024-01-01'', item_bucket = ''leaks'',
           item_storageid = ''S1'', item_systemid = ''sys-1'', linea = ''foo''\<rparr>] of
         Inl e \<Rightarrow> False
       | Inr (t, r', p) \<Rightarrow> normalizeIntelxId r' t = (t, r'))"
proof -
  let ?F = "\<lparr>item_name = ''a.txt'', item_date = ''2024-01-01'', item_bucket = ''leaks'',
           item_storageid = ''S1'', item_systemid = ''sys-1'', linea = ''foo''\<rparr>"
  let ?T = "JArr [JObj [(''line'', JStr ''foo''), (''system_id'', JNum 1),
                        (''storage_id'', JNum 1), (''bucket'', JStr ''leaks''),
                        (''filename'', JStr ''a.txt''), (''date'', JStr ''2024-01-01'')]]"
  have f: "''owner'' \<in> set TRANSITION_FIELDS" by (simp add: TRANSITION_FIELDS_def)
  have v: "fst (normalizeIntelxId initial_registry (JObj [(''owner'', JStr ''alice'')]))
       = JObj [(''owner'', JNum 1)]"
    by (simp add: TRANSITION_FIELDS_def initial_registry_def assign_def Let_def)
  obtain r0 where
    run: "normalizeIdentityRecords False initial_registry [?F] = Inr (?T, r0, False)"
    by (simp add: normalizeIdentityRecords_def merge_record_def inherited_def
          project_identity_def objectPrototypeKeys_def objectValues_def array_index_def
          is_digit_def json_of_identity_def truncate_line_def trim_def js_whitespace_def
          TRANSITION_FIELDS_def assign_def initial_registry_def Let_def)
  have again: "normalizeIntelxId r0 ?T = (?T, r0)"
    using normalizeIntelxId_idempotent
        [where polluted = False and r = initial_registry and recs = "[?F]"
           and t = ?T and r' = r0 and polluted' = False] run
    by blast
  have first: "map_sum id fst (normalizeIdentityRecords False initial_registry [?F]) = Inr ?T"
    unfolding run by simp
  have second: "(case normalizeIdentityRecords False initial_registry [?F] of
         Inl e \<Rightarrow> False
       | Inr (t, r', p) \<Rightarrow> normalizeIntelxId r' t = (t, r'))"
    unfolding run using again by simp
  show ?thesis
    using f v first second
      normalizeIntelxId_idempotent
        [where r = initial_registry and v = "JObj [(''owner'', JStr ''alice'')]"
           and key = "''owner''" and n = 7]
    by blast
qed

section \<open>The polling loops\<close>

lemma has_terminate_simps:
  "has_terminate [] = False"
  "has_terminate (cs @ ds) = (has_terminate cs \<or> has_terminate ds)"
  "has_terminate (Submit # cs) = has_terminate cs"
  "has_terminate (Poll h n # cs) = has_terminate cs"
  "has_terminate (Terminate h # cs) = True"
  by (simp_all add: has_terminate_def)

lemma has_poll_simps:
  "has_poll [] = False"
  "has_poll (cs @ ds) = (has_poll cs \<or> has_poll ds)"
  "has_poll (Submit # cs) = has_poll cs"
  "has_poll (Poll h n # cs) = True"
  "has_poll (Terminate h # cs) = has_poll cs"
  by (simp_all add: has_poll_def)

text \<open>
  When a loop is left, a terminate call has been issued exactly when the budget is used
  up; the identity search also issues one when the last round's status is 3.
\<close>

lemma search_poll_terminate:
  "\<not> has_terminate cs \<Longrightarrow>
   search_poll S searchId m acc cs script = Some (Returned a left st cs') \<Longrightarrow>
   has_terminate cs' = (left \<le> 0)"
proof (induction script arbitrary: m acc cs)
  case Nil
  then show ?case by simp
next
  case (Cons reply script)
  show ?case
  proof (cases reply)
    case HttpError
    then show ?thesis using Cons.prems by simp
  next
    case (HttpOk results)
    define m1 where
      "m1 = (case records results of Some rs \<Rightarrow> m - int (length rs) | None \<Rightarrow> m)"
    define acc1 where
      "acc1 = (case records results of Some rs \<Rightarrow> acc @ rs | None \<Rightarrow> acc)"
    define cs1 where "cs1 = cs @ [Poll searchId m]"
    define again where
      "again \<longleftrightarrow> status results = SUCCESS S
          \<and> (records results = None \<or> records results = Some [])"
    define leave where
      "leave \<longleftrightarrow> status results = NO_MORE_RESULTS S \<or> status results = NOT_FOUND S
          \<or> m1 \<le> 0"
    have clean: "\<not> has_terminate cs1"
      using Cons.prems(1) by (simp add: has_terminate_simps cs1_def)
    have step: "search_poll S searchId m acc cs (reply # script) =
        (if again then search_poll S searchId m1 acc1 cs1 script
         else if leave
         then Some (Returned acc1 m1 (status results)
                      (if m1 \<le> 0 then cs1 @ [Terminate searchId] else cs1))
         else search_poll S searchId m1 acc1 cs1 script)"
      unfolding HttpOk search_poll.simps Let_def http.case
      by (simp only: m1_def acc1_def cs1_def again_def leave_def)
    note eq = Cons.prems(2)[unfolded step]
    show ?thesis
    proof (cases "\<not> again \<and> leave")
      case True
      with eq have "left = m1"
        "cs' = (if m1 \<le> 0 then cs1 @ [Terminate searchId] else cs1)"
        by auto
      then show ?thesis using clean by (simp add: has_terminate_simps)
    next
      case False
      with eq have "search_poll S searchId m1 acc1 cs1 script = Some (Returned a left st cs')"
        by (auto split: if_splits)
      then show ?thesis using Cons.IH[OF clean] by simp
    qed
  qed
qed

lemma phonebook_poll_terminate:
  "\<not> has_terminate cs \<Longrightarrow>
   phonebook_poll S searchId m acc cs script = Some (Returned a left st cs') \<Longrightarrow>
   has_terminate cs' = (left \<le> 0)"
proof (induction script arbitrary: m acc cs)
  case Nil
  then show ?case by simp
next
  case (Cons reply script)
  show ?case
  proof (cases reply)
    case HttpError
    then show ?thesis using Cons.prems by simp
  next
    case (HttpOk results)
    define m1 where "m1 = m - int (length (selectors results))"
    define cs1 where "cs1 = cs @ [Poll searchId m]"
    define leave where
      "leave \<longleftrightarrow> pb_status results = NO_MORE_RESULTS S \<or> pb_status results = NOT_FOUND S
          \<or> m1 \<le> 0"
    have clean: "\<not> has_terminate cs1"
      using Cons.prems(1) by (simp add: has_terminate_simps cs1_def)
    have step: "phonebook_poll S searchId m acc cs (reply # script) =
        (if leave
         then Some (Returned (acc @ [results]) m1 (pb_status results)
                      (if m1 \<le> 0 then cs1 @ [Terminate searchId] else cs1))
         else phonebook_poll S searchId m1 (acc @ [results]) cs1 script)"
      unfolding HttpOk phonebook_poll.simps Let_def http.case
      by (simp only: m1_def cs1_def leave_def)
    note eq = Cons.prems(2)[unfolded step]
    show ?thesis
    proof (cases leave)
      case True
      with eq have "left = m1"
        "cs' = (if m1 \<le> 0 then cs1 @ [Terminate searchId] else cs1)"
        by auto
      then show ?thesis using clean by (simp add: has_terminate_simps)
    next
      case False
      with eq have "phonebook_poll S searchId m1 (acc @ [results]) cs1 script
          = Some (Returned a left st cs')"
        by simp
      then show ?thesis using Cons.IH[OF clean] by simp
    qed
  qed
qed

lemma identity_poll_terminate:
  "\<not> has_terminate cs \<Longrightarrow>
   identity_poll searchId m acc cs script = Some (Returned a left st cs') \<Longrightarrow>
   has_terminate cs' = (left \<le> 0 \<or> st = 3)"
proof (induction script arbitrary: m acc cs)
  case Nil
  then show ?case by simp
next
  case (Cons reply script)
  show ?case
  proof (cases reply)
    case HttpError
    then show ?thesis using Cons.prems by simp
  next
    case (HttpOk results)
    define taken where "taken = (status results = 0 \<and> records results \<noteq> None)"
    define m1 where
      "m1 = (case records results of
               Some rs \<Rightarrow> if taken then m - int (length rs) else m
             | None \<Rightarrow> m)"
    define acc1 where
      "acc1 = (case records results of
                 Some rs \<Rightarrow> if taken then acc @ rs else acc
               | None \<Rightarrow> acc)"
    define cs1 where "cs1 = cs @ [Poll searchId m]"
    have clean: "\<not> has_terminate cs1"
      using Cons.prems(1) by (simp add: has_terminate_simps cs1_def)
    have step: "identity_poll searchId m acc cs (reply # script) =
        (if status results = 2 \<or> m1 \<le> 0
         then Some (Returned (case records results of Some rs \<Rightarrow> acc1 @ rs | None \<Rightarrow> acc1)
                      m1 (status results)
                      (if m1 \<le> 0 then cs1 @ [Terminate searchId] else cs1))
         else if status results = 3
         then Some (Returned acc1 m1 (status results) (cs1 @ [Terminate searchId]))
         else identity_poll searchId m1 acc1 cs1 script)"
      unfolding HttpOk identity_poll.simps Let_def http.case
      by (simp only: m1_def acc1_def cs1_def taken_def)
    note eq = Cons.prems(2)[unfolded step]
    have "status results = 2 \<or> m1 \<le> 0
        \<or> (\<not> (status results = 2 \<or> m1 \<le> 0) \<and> status results = 3)
        \<or> (\<not> (status results = 2 \<or> m1 \<le> 0) \<and> status results \<noteq> 3)"
      by blast
    then consider (stop) "status results = 2 \<or> m1 \<le> 0"
      | (status3) "\<not> (status results = 2 \<or> m1 \<le> 0)" "status results = 3"
      | (again) "\<not> (status results = 2 \<or> m1 \<le> 0)" "status results \<noteq> 3"
      by blast
    then show ?thesis
    proof cases
      case stop
      with eq have "left = m1" "st = status results"
        "cs' = (if m1 \<le> 0 then cs1 @ [Terminate searchId] else cs1)"
        by auto
      moreover have "status results = 3 \<Longrightarrow> m1 \<le> 0" using stop by auto
      ultimately show ?thesis using clean by (auto simp: has_terminate_simps)
    next
      case status3
      with eq have "left = m1" "st = status results" "cs' = cs1 @ [Terminate searchId]"
        by auto
      then show ?thesis using status3 by (simp add: has_terminate_simps)
    next
      case again
      with eq have "identity_poll searchId m1 acc1 cs1 script = Some (Returned a left st cs')"
        by simp
      then show ?thesis using Cons.IH[OF clean] by simp
    qed
  qed
qed

lemma export_poll_terminate:
  "\<not> has_terminate cs \<Longrightarrow>
   export_poll searchId m acc cs script = Some (Returned a left st cs') \<Longrightarrow>
   has_terminate cs' = (left \<le> 0)"
proof (induction script arbitrary: m acc cs)
  case Nil
  then show ?case by simp
next
  case (Cons reply script)
  show ?case
  proof (cases reply)
    case HttpError
    then show ?thesis using Cons.prems by simp
  next
    case (HttpOk results)
    define taken where "taken = (status results = 0 \<and> records results \<noteq> None)"
    define m1 where
      "m1 = (case records results of
               Some rs \<Rightarrow> if taken then m - int (length rs) else m
             | None \<Rightarrow> m)"
    define acc1 where
      "acc1 = (case records results of
                 Some rs \<Rightarrow> if taken then acc @ rs else acc
               | None \<Rightarrow> acc)"
    define cs1 where "cs1 = cs @ [Poll searchId m]"
    have clean: "\<not> has_terminate cs1"
      using Cons.prems(1) by (simp add: has_terminate_simps cs1_def)
    have step: "export_poll searchId m acc cs (reply # script) =
        (if status results = 2 \<or> m1 \<le> 0
         then Some (Returned acc1 m1 (status results)
                      (if m1 \<le> 0 then cs1 @ [Terminate searchId] else cs1))
         else export_poll searchId m1 acc1 cs1 script)"
      unfolding HttpOk export_poll.simps Let_def http.case
      by (simp only: m1_def acc1_def cs1_def taken_def)
    note eq = Cons.prems(2)[unfolded step]
    show ?thesis
    proof (cases "status results = 2 \<or> m1 \<le> 0")
      case True
      with eq have "left = m1"
        "cs' = (if m1 \<le> 0 then cs1 @ [Terminate searchId] else cs1)"
        by auto
      then show ?thesis using clean by (simp add: has_terminate_simps)
    next
      case False
      with eq have "export_poll searchId m1 acc1 cs1 script = Some (Returned a left st cs')"
        by simp
      then show ?thesis using Cons.IH[OF clean] by simp
    qed
  qed
qed

text \<open>A submit that throws ends the run with the submit call alone.\<close>

lemma intelligentSearch_rejected:
  "resp_status data = 1 \<Longrightarrow>
   IntelXClient_search S m (HttpOk data) script = Some (Thrown InvalidSearchTerm [Submit])"
  by (simp add: IntelXClient_search_def intelligentSearch_def)

lemma identity_short_handle:
  "length (resp_id data) \<le> 3 \<Longrightarrow>
   IdentityClient_search m (HttpOk data) script = Some (Thrown InvalidSearchId [Submit])
   \<and> exportAccounts m (HttpOk data) script = Some (Thrown InvalidSearchId [Submit])"
  by (simp add: IdentityClient_search_def exportAccounts_def identity_submit_def)

section \<open>Claims about the polling loops\<close>

text \<open>
  Claim C1, as the code has it. With a budget of 5 and a first round that answers
  CONTINUE (\<^verbatim>\<open>SEARCH_STATUS.SUCCESS\<close>, status 0 for the identity client) with 10 records,
  the loop takes the whole batch, is left after that single round whatever the later
  rounds would answer, and issues the terminate call before it returns.
  \<^verbatim>\<open>IntelXClient.search\<close> returns exactly the 10 records, with the budget at -5; for
  \<^verbatim>\<open>IdentityClient.search\<close> the calls are the same, and nothing is said here about
  the number of records it returns.
\<close>

theorem budget_exhausted_after_full_batch:
  assumes "length rs = 10" and "resp_status data \<noteq> 1" and "3 < length (resp_id data)"
  shows "IntelXClient_search S (Some 5) (HttpOk data)
           (HttpOk (ResultResponse (SUCCESS S) (Some rs)) # later)
         = Some (Returned rs (- 5) (SUCCESS S)
                   [Submit, Poll (resp_id data) 5, Terminate (resp_id data)])
       \<and> map_option calls
           (IdentityClient_search (Some 5) (HttpOk data)
              (HttpOk (ResultResponse 0 (Some rs)) # later))
         = Some [Submit, Poll (resp_id data) 5, Terminate (resp_id data)]"
proof -
  have ne: "rs \<noteq> []" using assms(1) by auto
  have a: "IntelXClient_search S (Some 5) (HttpOk data)
           (HttpOk (ResultResponse (SUCCESS S) (Some rs)) # later)
         = Some (Returned rs (- 5) (SUCCESS S)
                   [Submit, Poll (resp_id data) 5, Terminate (resp_id data)])"
    using assms(1,2) ne
    by (simp add: IntelXClient_search_def intelligentSearch_def or_default_def Let_def)
  have b: "map_option calls
           (IdentityClient_search (Some 5) (HttpOk data)
              (HttpOk (ResultResponse 0 (Some rs)) # later))
         = Some [Submit, Poll (resp_id data) 5, Terminate (resp_id data)]"
    using assms(1,3)
    by (simp add: IdentityClient_search_def identity_submit_def or_default_def Let_def)
  show ?thesis using a b by (rule conjI)
qed

theorem budget_exhausted_after_full_batch_witness:
  "IntelXClient_search \<lparr>SUCCESS = 0, NO_MORE_RESULTS = 1, NOT_FOUND = 2\<rparr> (Some 5)
     (HttpOk (SearchResponse ''job-0001'' 0))
     (replicate 3 (HttpOk (ResultResponse 0 (Some [1, 2, 3, 4, 5, 6, 7, 8, 9, 10 :: nat]))))
   = Some (Returned [1, 2, 3, 4, 5, 6, 7, 8, 9, 10] (- 5) 0
             [Submit, Poll ''job-0001'' 5, Terminate ''job-0001''])
   \<and> map_option calls
       (IdentityClient_search (Some 5) (HttpOk (SearchResponse ''job-0001'' 0))
          (replicate 3 (HttpOk (ResultResponse 0 (Some [1, 2, 3, 4, 5, 6, 7, 8, 9, 10 :: nat])))))
     = Some [Submit, Poll ''job-0001'' 5, Terminate ''job-0001'']"
proof -
  have r: "replicate 3 x = x # replicate 2 x" for x :: "nat result_response http"
    by (simp add: numeral_3_eq_3 numeral_2_eq_2)
  show ?thesis
    using budget_exhausted_after_full_batch
      [where rs = "[1, 2, 3, 4, 5, 6, 7, 8, 9, 10 :: nat]"
         and data = "SearchResponse ''job-0001'' 0"
         and S = "\<lparr>SUCCESS = 0, NO_MORE_RESULTS = 1, NOT_FOUND = 2\<rparr>"
         and later = "replicate 2
                        (HttpOk (ResultResponse 0 (Some [1, 2, 3, 4, 5, 6, 7, 8, 9, 10])))"]
    by (simp add: r)
qed

text \<open>
  Claim C1 as stated fails: with a budget of 5 and rounds of 10 records, the run of
  \<^verbatim>\<open>IntelXClient.search\<close> does not end with 5 accumulated records (it ends with 10).
\<close>

theorem budget_five_counterexample:
  "map_option (length \<circ> allRecords)
     (IntelXClient_search \<lparr>SUCCESS = 0, NO_MORE_RESULTS = 1, NOT_FOUND = 2\<rparr> (Some 5)
        (HttpOk (SearchResponse ''job-0001'' 0))
        (replicate 3 (HttpOk (ResultResponse 0 (Some [1, 2, 3, 4, 5, 6, 7, 8, 9, 10 :: nat])))))
   \<noteq> Some 5"
  by (simp add: IntelXClient_search_def intelligentSearch_def or_default_def Let_def
        numeral_3_eq_3)

text \<open>
  Claim C2, as the code has it. For every run that leaves its loop: the run of
  \<^verbatim>\<open>IntelXClient.search\<close> (and of the phonebook and account-export loops) has issued
  a terminate call exactly when the remaining budget is at or below 0, whatever the
  status of the last round; the run of \<^verbatim>\<open>IdentityClient.search\<close> has issued one
  exactly when the remaining budget is at or below 0 or the status of the last round
  is 3. So a last round with a COMPLETE or EXPIRED status goes without a terminate call
  only when budget is left.
\<close>

theorem terminate_iff_budget_exhausted:
  "(IntelXClient_search S m1 submit1 script1 = Some (Returned a1 left1 st1 cs1)
      \<longrightarrow> has_terminate cs1 = (left1 \<le> 0))
   \<and> (IdentityClient_search m2 submit2 script2 = Some (Returned a2 left2 st2 cs2)
      \<longrightarrow> has_terminate cs2 = (left2 \<le> 0 \<or> st2 = 3))
   \<and> (phonebookSearchComplete S m3 submit3 script3 = Some (Returned a3 left3 st3 cs3)
      \<longrightarrow> has_terminate cs3 = (left3 \<le> 0))
   \<and> (exportAccounts m4 submit4 script4 = Some (Returned a4 left4 st4 cs4)
      \<longrightarrow> has_terminate cs4 = (left4 \<le> 0))"
proof -
  have start: "\<not> has_terminate [Submit]" by (simp add: has_terminate_simps)
  have 1: "has_terminate cs1 = (left1 \<le> 0)"
    if "IntelXClient_search S m1 submit1 script1 = Some (Returned a1 left1 st1 cs1)"
    using that
    by (auto simp: IntelXClient_search_def split: sum.splits
          dest: search_poll_terminate[OF start])
  have 2: "has_terminate cs2 = (left2 \<le> 0 \<or> st2 = 3)"
    if "IdentityClient_search m2 submit2 script2 = Some (Returned a2 left2 st2 cs2)"
    using that
    by (auto simp: IdentityClient_search_def split: sum.splits
          dest: identity_poll_terminate[OF start])
  have 3: "has_terminate cs3 = (left3 \<le> 0)"
    if "phonebookSearchComplete S m3 submit3 script3 = Some (Returned a3 left3 st3 cs3)"
    using that
    by (auto simp: phonebookSearchComplete_def split: sum.splits
          dest: phonebook_poll_terminate[OF start])
  have 4: "has_terminate cs4 = (left4 \<le> 0)"
    if "exportAccounts m4 submit4 script4 = Some (Returned a4 left4 st4 cs4)"
    using that
    by (auto simp: exportAccounts_def split: sum.splits
          dest: export_poll_terminate[OF start])
  show ?thesis using 1 2 3 4 by blast
qed

theorem terminate_iff_budget_exhausted_witness:
  "IntelXClient_search \<lparr>SUCCESS = 0, NO_MORE_RESULTS = 1, NOT_FOUND = 2\<rparr> (Some 2)
     (HttpOk (SearchResponse ''job-0001'' 0)) [HttpOk (ResultResponse 1 (Some [4, 5 :: nat]))]
   = Some (Returned [4, 5] 0 1 [Submit, Poll ''job-0001'' 2, Terminate ''job-0001''])
   \<and> has_terminate [Submit, Poll ''job-0001'' 2, Terminate ''job-0001''] = ((0::int) \<le> 0)
   \<and> IdentityClient_search (Some 10) (HttpOk (SearchResponse ''job-0001'' 0))
        [HttpOk (ResultResponse 2 (Some [4, 5 :: nat]))]
   = Some (Returned [4, 5] 10 2 [Submit, Poll ''job-0001'' 10])
   \<and> has_terminate [Submit, Poll ''job-0001'' 10] = ((10::int) \<le> 0 \<or> (2::int) = 3)
   \<and> phonebookSearchComplete \<lparr>SUCCESS = 0, NO_MORE_RESULTS = 1, NOT_FOUND = 2\<rparr> (Some 5)
        (HttpOk (SearchResponse ''job-0001'' 0))
        [HttpOk (PhonebookResultResponse 1 [''a@example.com''])]
   = Some (Returned [PhonebookResultResponse 1 [''a@example.com'']] 4 1
             [Submit, Poll ''job-0001'' 5])
   \<and> has_terminate [Submit, Poll ''job-0001'' 5] = ((4::int) \<le> 0)
   \<and> exportAccounts (Some 1) (HttpOk (SearchResponse ''job-0001'' 0))
        [HttpOk (ResultResponse 0 (Some [4, 5 :: nat]))]
   = Some (Returned [4, 5] (- 1) 0 [Submit, Poll ''job-0001'' 1, Terminate ''job-0001''])
   \<and> has_terminate [Submit, Poll ''job-0001'' 1, Terminate ''job-0001''] = ((- 1::int) \<le> 0)"
proof -
  let ?S = "\<lparr>SUCCESS = 0, NO_MORE_RESULTS = 1, NOT_FOUND = 2\<rparr>"
  have 1: "IntelXClient_search ?S (Some 2)
     (HttpOk (SearchResponse ''job-0001'' 0)) [HttpOk (ResultResponse 1 (Some [4, 5 :: nat]))]
   = Some (Returned [4, 5] 0 1 [Submit, Poll ''job-0001'' 2, Terminate ''job-0001''])"
    by (simp add: IntelXClient_search_def intelligentSearch_def or_default_def Let_def)
  have 2: "IdentityClient_search (Some 10) (HttpOk (SearchResponse ''job-0001'' 0))
        [HttpOk (ResultResponse 2 (Some [4, 5 :: nat]))]
   = Some (Returned [4, 5] 10 2 [Submit, Poll ''job-0001'' 10])"
    by (simp add: IdentityClient_search_def identity_submit_def or_default_def Let_def)
  have 3: "phonebookSearchComplete ?S (Some 5) (HttpOk (SearchResponse ''job-0001'' 0))
        [HttpOk (PhonebookResultResponse 1 [''a@example.com''])]
   = Some (Returned [PhonebookResultResponse 1 [''a@example.com'']] 4 1
             [Submit, Poll ''job-0001'' 5])"
    by (simp add: phonebookSearchComplete_def phonebookSearch_def or_default_def Let_def)
  have 4: "exportAccounts (Some 1) (HttpOk (SearchResponse ''job-0001'' 0))
        [HttpOk (ResultResponse 0 (Some [4, 5 :: nat]))]
   = Some (Returned [4, 5] (- 1) 0 [Submit, Poll ''job-0001'' 1, Terminate ''job-0001''])"
    by (simp add: exportAccounts_def identity_submit_def Let_def)
  from terminate_iff_budget_exhausted
    [of ?S "Some 2" "HttpOk (SearchResponse ''job-0001'' 0)"
        "[HttpOk (ResultResponse 1 (Some [4, 5 :: nat]))]" "[4, 5]" 0 1
        "[Submit, Poll ''job-0001'' 2, Terminate ''job-0001'']"
        "Some 10" "HttpOk (SearchResponse ''job-0001'' 0)"
        "[HttpOk (ResultResponse 2 (Some [4, 5 :: nat]))]" "[4, 5]" 10 2
        "[Submit, Poll ''job-0001'' 10]"
        "Some 5" "HttpOk (SearchResponse ''job-0001'' 0)"
        "[HttpOk (PhonebookResultResponse 1 [''a@example.com''])]"
        "[PhonebookResultResponse 1 [''a@example.com'']]" 4 1
        "[Submit, Poll ''job-0001'' 5]"
        "Some 1" "HttpOk (SearchResponse ''job-0001'' 0)"
        "[HttpOk (ResultResponse 0 (Some [4, 5 :: nat]))]" "[4, 5]" "- 1" 0
        "[Submit, Poll ''job-0001'' 1, Terminate ''job-0001'']"]
    1 2 3 4
  show ?thesis by blast
qed

text \<open>
  Claim C2 as stated fails. A run of \<^verbatim>\<open>IdentityClient.search\<close> whose first round has
  status 3 is left with the whole budget of 10 and a terminate call issued; and a run of
  \<^verbatim>\<open>IntelXClient.search\<close> whose last round is COMPLETE and fills the budget of 2 has a
  terminate call issued although its terminal status is COMPLETE.
\<close>

theorem terminate_without_exhaustion_counterexample:
  "IdentityClient_search (Some 10) (HttpOk (SearchResponse ''job-0001'' 0))
     [HttpOk (ResultResponse 3 (Some ([] :: nat list)))]
   = Some (Returned [] 10 3 [Submit, Poll ''job-0001'' 10, Terminate ''job-0001''])
   \<and> has_terminate [Submit, Poll ''job-0001'' 10, Terminate ''job-0001'']
   \<and> \<not> (10::int) \<le> 0
   \<and> IntelXClient_search \<lparr>SUCCESS = 0, NO_MORE_RESULTS = 1, NOT_FOUND = 2\<rparr> (Some 2)
       (HttpOk (SearchResponse ''job-0001'' 0)) [HttpOk (ResultResponse 1 (Some [4, 5 :: nat]))]
   = Some (Returned [4, 5] 0 1 [Submit, Poll ''job-0001'' 2, Terminate ''job-0001''])"
  by (simp add: IdentityClient_search_def identity_submit_def IntelXClient_search_def
        intelligentSearch_def or_default_def Let_def has_terminate_simps)

text \<open>
  Claim C3, as the code has it. Each client makes one of the two checks on the submit
  response, and a failed check ends the run before any poll call:
  \<^verbatim>\<open>IntelXClient.search\<close> throws the invalid-search-term error when the response
  carries status 1 (it has no check on the identifier's length), and
  \<^verbatim>\<open>IdentityClient.search\<close> and \<^verbatim>\<open>exportAccounts\<close> throw the invalid-identifier error
  when the returned identifier has at most 3 characters (they have no check on the
  status). Nothing is said here about the phonebook search.
\<close>

theorem submit_checks_per_client:
  "(resp_status data = 1 \<longrightarrow>
      IntelXClient_search S m (HttpOk data) script = Some (Thrown InvalidSearchTerm [Submit]))
   \<and> (length (resp_id data) \<le> 3 \<longrightarrow>
      IdentityClient_search m' (HttpOk data) script' = Some (Thrown InvalidSearchId [Submit])
      \<and> exportAccounts m' (HttpOk data) script' = Some (Thrown InvalidSearchId [Submit]))
   \<and> \<not> has_poll [Submit]"
  using intelligentSearch_rejected[of data S m script]
    identity_short_handle[of data m' script']
  by (simp add: has_poll_simps)

theorem submit_checks_per_client_witness:
  "resp_status (SearchResponse ''ab'' 1) = 1
   \<and> IntelXClient_search \<lparr>SUCCESS = 0, NO_MORE_RESULTS = 1, NOT_FOUND = 2\<rparr> (Some 10)
       (HttpOk (SearchResponse ''ab'' 1)) [HttpOk (ResultResponse 0 (Some [1 :: nat]))]
     = Some (Thrown InvalidSearchTerm [Submit])
   \<and> length (resp_id (SearchResponse ''ab'' 1)) \<le> 3
   \<and> IdentityClient_search (Some 10) (HttpOk (SearchResponse ''ab'' 1))
       [HttpOk (ResultResponse 0 (Some [1 :: nat]))]
     = Some (Thrown InvalidSearchId [Submit])
   \<and> exportAccounts (Some 10) (HttpOk (SearchResponse ''ab'' 1))
       [HttpOk (ResultResponse 0 (Some [1 :: nat]))]
     = Some (Thrown InvalidSearchId [Submit])"
  using submit_checks_per_client
    [of "SearchResponse ''ab'' 1" "\<lparr>SUCCESS = 0, NO_MORE_RESULTS = 1, NOT_FOUND = 2\<rparr>"
        "Some 10" "[HttpOk (ResultResponse 0 (Some [1 :: nat]))]"
        "Some 10" "[HttpOk (ResultResponse 0 (Some [1 :: nat]))]"]
  by simp

text \<open>
  Claim C3 as stated fails. A submit response of \<^verbatim>\<open>IntelXClient.search\<close> with a
  two-character identifier is accepted and polled, and a submit response of
  \<^verbatim>\<open>IdentityClient.search\<close> with status 1 is accepted and polled.
\<close>

theorem submit_checks_counterexample:
  "IntelXClient_search \<lparr>SUCCESS = 0, NO_MORE_RESULTS = 1, NOT_FOUND = 2\<rparr> (Some 10)
     (HttpOk (SearchResponse ''ab'' 0)) [HttpOk (ResultResponse 2 (None :: nat list option))]
   = Some (Returned [] 10 2 [Submit, Poll ''ab'' 10])
   \<and> has_poll [Submit, Poll ''ab'' 10]
   \<and> IdentityClient_search (Some 10) (HttpOk (SearchResponse ''job-0001'' 1))
       [HttpOk (ResultResponse 2 (None :: nat list option))]
   = Some (Returned [] 10 2 [Submit, Poll ''job-0001'' 10])
   \<and> has_poll [Submit, Poll ''job-0001'' 10]"
  by (simp add: IdentityClient_search_def identity_submit_def IntelXClient_search_def
        intelligentSearch_def or_default_def Let_def has_poll_simps)

text \<open>
  The phonebook search makes neither check: a submit response with status 1 and an
  empty identifier is accepted and polled.
\<close>

lemma phonebook_submit_unchecked:
  "phonebookSearchComplete \<lparr>SUCCESS = 0, NO_MORE_RESULTS = 1, NOT_FOUND = 2\<rparr> (Some 10)
     (HttpOk (SearchResponse [] 1)) [HttpOk (PhonebookResultResponse 2 ([] :: string list))]
   = Some (Returned [PhonebookResultResponse 2 []] 10 2 [Submit, Poll [] 10])"
  by (simp add: phonebookSearchComplete_def phonebookSearch_def or_default_def Let_def)

text \<open>
  Claim C4. With a budget of 10 and the rounds CONTINUE with no record, CONTINUE with
  3 records, COMPLETE with 2 records, the run is left after the third round with the 5
  records accumulated and no terminate call among its calls. For
  \<^verbatim>\<open>IntelXClient.search\<close> CONTINUE is \<^verbatim>\<open>SEARCH_STATUS.SUCCESS\<close> and COMPLETE is
  \<^verbatim>\<open>SEARCH_STATUS.NO_MORE_RESULTS\<close>, which must differ from \<^verbatim>\<open>SUCCESS\<close> as
  \<^verbatim>\<open>NOT_FOUND\<close> must; for \<^verbatim>\<open>IdentityClient.search\<close> they are the statuses 0 and 2.
\<close>

theorem scripted_run_completes:
  assumes "SUCCESS S \<noteq> NO_MORE_RESULTS S" and "SUCCESS S \<noteq> NOT_FOUND S"
    and "resp_status data \<noteq> 1" and "3 < length (resp_id data)"
    and "length r3 = 3" and "length r2 = 2"
  shows "IntelXClient_search S (Some 10) (HttpOk data)
           ([HttpOk (ResultResponse (SUCCESS S) (Some [])),
             HttpOk (ResultResponse (SUCCESS S) (Some r3)),
             HttpOk (ResultResponse (NO_MORE_RESULTS S) (Some r2))] @ later)
         = Some (Returned (r3 @ r2) 5 (NO_MORE_RESULTS S)
                   [Submit, Poll (resp_id data) 10, Poll (resp_id data) 10,
                    Poll (resp_id data) 7])
       \<and> IdentityClient_search (Some 10) (HttpOk data)
           ([HttpOk (ResultResponse 0 (Some [])),
             HttpOk (ResultResponse 0 (Some r3)),
             HttpOk (ResultResponse 2 (Some r2))] @ later)
         = Some (Returned (r3 @ r2) 7 2
                   [Submit, Poll (resp_id data) 10, Poll (resp_id data) 10,
                    Poll (resp_id data) 7])
       \<and> length (r3 @ r2) = 5
       \<and> \<not> has_terminate [Submit, Poll (resp_id data) 10, Poll (resp_id data) 10,
                            Poll (resp_id data) 7]"
proof -
  have ne: "r3 \<noteq> []" "r2 \<noteq> []" using assms(5,6) by auto
  have a: "IntelXClient_search S (Some 10) (HttpOk data)
           ([HttpOk (ResultResponse (SUCCESS S) (Some [])),
             HttpOk (ResultResponse (SUCCESS S) (Some r3)),
             HttpOk (ResultResponse (NO_MORE_RESULTS S) (Some r2))] @ later)
         = Some (Returned (r3 @ r2) 5 (NO_MORE_RESULTS S)
                   [Submit, Poll (resp_id data) 10, Poll (resp_id data) 10,
                    Poll (resp_id data) 7])"
    using assms(1,2,3,5,6) ne assms(1)[symmetric]
    by (simp add: IntelXClient_search_def intelligentSearch_def or_default_def Let_def)
  have b: "IdentityClient_search (Some 10) (HttpOk data)
           ([HttpOk (ResultResponse 0 (Some [])),
             HttpOk (ResultResponse 0 (Some r3)),
             HttpOk (ResultResponse 2 (Some r2))] @ later)
         = Some (Returned (r3 @ r2) 7 2
                   [Submit, Poll (resp_id data) 10, Poll (resp_id data) 10,
                    Poll (resp_id data) 7])"
    using assms(4,5,6)
    by (simp add: IdentityClient_search_def identity_submit_def or_default_def Let_def)
  have c: "length (r3 @ r2) = 5" using assms(5,6) by simp
  have d: "\<not> has_terminate [Submit, Poll (resp_id data) 10, Poll (resp_id data) 10,
                            Poll (resp_id data) 7]"
    by (simp add: has_terminate_simps)
  show ?thesis using a b c d by blast
qed

theorem scripted_run_completes_witness:
  "IntelXClient_search \<lparr>SUCCESS = 0, NO_MORE_RESULTS = 1, NOT_FOUND = 2\<rparr> (Some 10)
     (HttpOk (SearchResponse ''job-0001'' 0))
     [HttpOk (ResultResponse 0 (Some [])),
      HttpOk (ResultResponse 0 (Some [1, 2, 3 :: nat])),
      HttpOk (ResultResponse 1 (Some [4, 5]))]
   = Some (Returned [1, 2, 3, 4, 5] 5 1
             [Submit, Poll ''job-0001'' 10, Poll ''job-0001'' 10, Poll ''job-0001'' 7])
   \<and> IdentityClient_search (Some 10) (HttpOk (SearchResponse ''job-0001'' 0))
       [HttpOk (ResultResponse 0 (Some [])),
        HttpOk (ResultResponse 0 (Some [1, 2, 3 :: nat])),
        HttpOk (ResultResponse 2 (Some [4, 5]))]
   = Some (Returned [1, 2, 3, 4, 5] 7 2
             [Submit, Poll ''job-0001'' 10, Poll ''job-0001'' 10, Poll ''job-0001'' 7])
   \<and> \<not> has_terminate [Submit, Poll ''job-0001'' 10, Poll ''job-0001'' 10,
                        Poll ''job-0001'' 7]"
  using scripted_run_completes
    [where S = "\<lparr>SUCCESS = 0, NO_MORE_RESULTS = 1, NOT_FOUND = 2\<rparr>"
       and data = "SearchResponse ''job-0001'' 0"
       and ?r3.0 = "[1, 2, 3 :: nat]" and ?r2.0 = "[4, 5]" and later = "[]"]
  by simp

section \<open>The identity normalizer\<close>

lemma objectValues_single: "objectValues [(k, v)] = [v]"
  by (cases "array_index k") (simp_all add: objectValues_def)

lemma objectValues_subset: "set (objectValues obj) \<subseteq> snd ` set obj"
  by (auto simp: objectValues_def)

lemma set_own_lookup: "map_of (set_own k v kvs) k = Some v"
  by (induction kvs) auto

lemma set_own_twice: "set_own k v (set_own k w kvs) = set_own k v kvs"
  by (induction kvs) auto

lemma set_own_entries: "set (set_own k v kvs) \<subseteq> insert (k, v) (set kvs)"
  by (induction kvs) (auto split: if_splits)

text \<open>
  The callback on a storage identifier that is not inherited: the first record of the
  identifier creates the entry, whose line is a newline and the record's line; a later
  one appends a newline and its line to the entry.
\<close>

lemma merge_record_new:
  assumes "map_of merged (storage_id a) = None" and "\<not> inherited polluted (storage_id a)"
  shows "merge_record merged polluted a
     = Inr (set_own (storage_id a) (a\<lparr>line := CHR 0x0A # line a\<rparr>) merged, polluted)"
  using assms by (simp add: merge_record_def set_own_lookup set_own_twice)

lemma merge_record_own:
  assumes "map_of merged (storage_id a) = Some m"
  shows "merge_record merged polluted a
     = Inr (set_own (storage_id a) (m\<lparr>line := line m @ CHR 0x0A # line a\<rparr>) merged, polluted)"
  using assms by (simp add: merge_record_def)

lemma merge_record_inherited:
  assumes "map_of merged (storage_id a) = None" and "storage_id a \<in> set objectPrototypeKeys"
  shows "merge_record merged polluted a
     = Inr (merged, polluted \<or> storage_id a = ''__proto__'')"
  using assms by (simp add: merge_record_def inherited_def)

lemma merge_record_throws:
  assumes "map_of merged ''line'' = None" and "storage_id a = ''line''"
  shows "merge_record merged True a = Inl TypeError"
  using assms by (simp add: merge_record_def inherited_def objectPrototypeKeys_def)

text \<open>
  Two records with the same storage identifier, which is not an inherited name: one
  merged entry, seeded by the first record, whose line is a newline and the first line,
  then a newline and the second line.
\<close>

lemma merge_two_records:
  assumes "storage_id a = sid" and "storage_id b = sid" and "\<not> inherited polluted sid"
  shows "mergeByStorageId [] polluted [a, b]
     = Inr ([(sid, a\<lparr>line := [CHR 0x0A] @ line a @ [CHR 0x0A] @ line b\<rparr>)], polluted)"
proof -
  have one: "merge_record [] polluted a = Inr ([(sid, a\<lparr>line := CHR 0x0A # line a\<rparr>)], polluted)"
    using merge_record_new[of "[]" a polluted] assms(1,3) by simp
  have two: "merge_record [(sid, a\<lparr>line := CHR 0x0A # line a\<rparr>)] polluted b
      = Inr ([(sid, a\<lparr>line := [CHR 0x0A] @ line a @ [CHR 0x0A] @ line b\<rparr>)], polluted)"
    using merge_record_own[of "[(sid, a\<lparr>line := CHR 0x0A # line a\<rparr>)]" b
        "a\<lparr>line := CHR 0x0A # line a\<rparr>" polluted] assms(2)
    by simp
  show ?thesis
    by (simp add: one two)
qed

lemma merge_S1_foo_bar:
  "mergeByStorageId [] False (map project_identity
     [\<lparr>item_name = ''a.txt'', item_date = ''2024-01-01'', item_bucket = ''leaks'',
       item_storageid = ''S1'', item_systemid = ''sys-1'', linea = ''foo''\<rparr>,
      \<lparr>item_name = ''b.txt'', item_date = ''2024-01-02'', item_bucket = ''leaks'',
       item_storageid = ''S1'', item_systemid = ''sys-2'', linea = ''bar''\<rparr>])
   = Inr ([(''S1'', \<lparr>line = [CHR 0x0A] @ ''foo'' @ [CHR 0x0A] @ ''bar'', system_id = ''sys-1'',
       storage_id = ''S1'', bucket = ''leaks'', filename = ''a.txt'',
       date = ''2024-01-01''\<rparr>)], False)"
  using merge_two_records
    [of "project_identity \<lparr>item_name = ''a.txt'', item_date = ''2024-01-01'',
           item_bucket = ''leaks'', item_storageid = ''S1'', item_systemid = ''sys-1'',
           linea = ''foo''\<rparr>" "''S1''"
        "project_identity \<lparr>item_name = ''b.txt'', item_date = ''2024-01-02'',
           item_bucket = ''leaks'', item_storageid = ''S1'', item_systemid = ''sys-2'',
           linea = ''bar''\<rparr>" False]
  by (simp add: project_identity_def inherited_def objectPrototypeKeys_def)

text \<open>
  Once a record with the storage identifier \<^verbatim>\<open>__proto__\<close> has been merged, a record
  with the storage identifier \<^verbatim>\<open>line\<close> makes the normalizer throw.
\<close>

lemma proto_then_line_throws:
  "normalizeIdentityRecords False initial_registry
     [\<lparr>item_name = ''a.txt'', item_date = ''2024-01-01'', item_bucket = ''leaks'',
       item_storageid = ''__proto__'', item_systemid = ''sys-1'', linea = ''foo''\<rparr>,
      \<lparr>item_name = ''b.txt'', item_date = ''2024-01-02'', item_bucket = ''leaks'',
       item_storageid = ''line'', item_systemid = ''sys-2'', linea = ''bar''\<rparr>]
   = Inl TypeError"
  by (simp add: normalizeIdentityRecords_def merge_record_def inherited_def
        project_identity_def objectPrototypeKeys_def)

text \<open>
  Claim C7 fails on the code for a storage identifier that names a member of
  \<^verbatim>\<open>Object.prototype\<close>: two records that share the storage identifier
  \<^verbatim>\<open>constructor\<close>, with the lines foo and bar, leave no merged record at all, and the
  normalizer returns the empty array.
\<close>

theorem inherited_storage_id_dropped:
  "mergeByStorageId [] polluted (map project_identity
     [\<lparr>item_name = ''a.txt'', item_date = ''2024-01-01'', item_bucket = ''leaks'',
       item_storageid = ''constructor'', item_systemid = ''sys-1'', linea = ''foo''\<rparr>,
      \<lparr>item_name = ''b.txt'', item_date = ''2024-01-02'', item_bucket = ''leaks'',
       item_storageid = ''constructor'', item_systemid = ''sys-2'', linea = ''bar''\<rparr>])
   = Inr ([], polluted)
   \<and> objectValues ([] :: (string \<times> identity_normalized) list) = []
   \<and> normalizeIdentityRecords polluted r
     [\<lparr>item_name = ''a.txt'', item_date = ''2024-01-01'', item_bucket = ''leaks'',
       item_storageid = ''constructor'', item_systemid = ''sys-1'', linea = ''foo''\<rparr>,
      \<lparr>item_name = ''b.txt'', item_date = ''2024-01-02'', item_bucket = ''leaks'',
       item_storageid = ''constructor'', item_systemid = ''sys-2'', linea = ''bar''\<rparr>]
   = Inr (JArr [], r, polluted)"
  by (simp add: normalizeIdentityRecords_def objectValues_def
        merge_record_def inherited_def project_identity_def objectPrototypeKeys_def)

text \<open>
  Every merged line begins with the newline that the join puts before the first record's
  line.
\<close>

lemma merge_record_newline:
  assumes "\<forall>p \<in> set merged. \<exists>rest. line (snd p) = CHR 0x0A # rest"
    and "merge_record merged polluted a = Inr (merged', polluted')"
  shows "\<forall>p \<in> set merged'. \<exists>rest. line (snd p) = CHR 0x0A # rest"
proof (cases "map_of merged (storage_id a)")
  case (Some m)
  have "(storage_id a, m) \<in> set merged" using Some by (rule map_of_SomeD)
  then obtain rest where rest: "line m = CHR 0x0A # rest" using assms(1) by fastforce
  have m': "merged' = set_own (storage_id a) (m\<lparr>line := line m @ CHR 0x0A # line a\<rparr>) merged"
    using assms(2) merge_record_own[OF Some, of polluted] by simp
  show ?thesis
    unfolding m' using set_own_entries[of "storage_id a" "m\<lparr>line := line m @ CHR 0x0A # line a\<rparr>" merged]
      assms(1) rest by fastforce
next
  case None
  show ?thesis
  proof (cases "inherited polluted (storage_id a)")
    case True
    have "merged' = merged"
      using assms(2) None True by (simp add: merge_record_def split: if_splits)
    then show ?thesis using assms(1) by simp
  next
    case False
    have m': "merged' = set_own (storage_id a) (a\<lparr>line := CHR 0x0A # line a\<rparr>) merged"
      using assms(2) merge_record_new[OF None False] by simp
    show ?thesis
      unfolding m' using set_own_entries[of "storage_id a" "a\<lparr>line := CHR 0x0A # line a\<rparr>" merged]
        assms(1) by fastforce
  qed
qed

lemma mergeByStorageId_newline:
  assumes "\<forall>p \<in> set merged. \<exists>rest. line (snd p) = CHR 0x0A # rest"
    and "mergeByStorageId merged polluted recs = Inr (merged', polluted')"
  shows "\<forall>p \<in> set merged'. \<exists>rest. line (snd p) = CHR 0x0A # rest"
  using assms
proof (induction recs arbitrary: merged polluted)
  case Nil
  then show ?case by simp
next
  case (Cons a recs)
  from Cons.prems(2) obtain merged1 polluted1 where
    step: "merge_record merged polluted a = Inr (merged1, polluted1)"
    and rest: "mergeByStorageId merged1 polluted1 recs = Inr (merged', polluted')"
    by (auto split: sum.splits)
  show ?case
    using Cons.IH[OF merge_record_newline[OF Cons.prems(1) step] rest] .
qed

lemma merged_line_newline:
  assumes "mergeByStorageId [] polluted recs = Inr (merged, polluted')"
    and "i < length (objectValues merged)"
  shows "\<exists>rest. line (objectValues merged ! i) = CHR 0x0A # rest"
proof -
  have "objectValues merged ! i \<in> snd ` set merged"
    using objectValues_subset[of merged] nth_mem[OF assms(2)] by blast
  then show ?thesis
    using mergeByStorageId_newline[OF _ assms(1)] by fastforce
qed

text \<open>The trim of a line that begins with a newline is shorter than the line.\<close>

lemma trim_shorter: "length (trim (CHR 0x0A # rest)) < length (CHR 0x0A # rest)"
proof -
  have d: "dropWhile js_whitespace (CHR 0x0A # rest) = dropWhile js_whitespace rest"
    by (simp add: js_whitespace_def)
  have "length (trim (CHR 0x0A # rest))
      = length (dropWhile js_whitespace (rev (dropWhile js_whitespace rest)))"
    unfolding trim_def d by simp
  also have "\<dots> \<le> length (rev (dropWhile js_whitespace rest))"
    by (rule length_dropWhile_le)
  also have "\<dots> \<le> length rest"
    by (simp add: length_dropWhile_le)
  finally show ?thesis by simp
qed

text \<open>The numeral that \<open>decimal\<close> prints reads back as the number.\<close>

lemma decimal_unfold:
  "decimal n =
     (if n < 10 then [char_of (48 + n)]
      else decimal (n div 10) @ [char_of (48 + n mod 10)])"
  by (rule decimal.simps)

declare decimal.simps [simp del]

lemma digit_value_char: "d < 10 \<Longrightarrow> digit_value (char_of (48 + d)) = d"
  by (simp add: digit_value_def of_char_of)

lemma nat_of_digits_snoc: "nat_of_digits (s @ [c]) = 10 * nat_of_digits s + digit_value c"
  by (simp add: nat_of_digits_def)

lemma nat_of_digits_decimal: "nat_of_digits (decimal n) = n"
proof (induction n rule: decimal.induct)
  case (1 n)
  show ?case
  proof (cases "n < 10")
    case True
    then show ?thesis
      by (simp add: decimal_unfold[of n] nat_of_digits_def digit_value_char)
  next
    case False
    have "nat_of_digits (decimal n)
        = 10 * nat_of_digits (decimal (n div 10)) + digit_value (char_of (48 + n mod 10))"
      using False by (simp add: decimal_unfold[of n] nat_of_digits_snoc)
    also have "\<dots> = 10 * (n div 10) + n mod 10"
      using 1[OF False] by (simp add: digit_value_char)
    finally show ?thesis by simp
  qed
qed

lemma decimal_12: "decimal 12 = ''12''"
  by code_simp

lemma decimal_11: "decimal 11 = ''11''"
  by code_simp

text \<open>The second \<^verbatim>\<open>map\<close> changes the line of a record and nothing else.\<close>

lemma truncate_line_fields:
  "system_id (truncate_line m) = system_id m"
  "storage_id (truncate_line m) = storage_id m"
  "bucket (truncate_line m) = bucket m"
  "filename (truncate_line m) = filename m"
  "date (truncate_line m) = date m"
  by (simp_all add: truncate_line_def Let_def)

lemma truncate_line_long:
  "128 < length (trim (line m)) \<Longrightarrow>
     line (truncate_line m)
       = take 128 (trim (line m)) @ ''...(More ''
           @ decimal (length (trim (line m)) - 128) @ '' characters)''"
  by (simp add: truncate_line_def Let_def)

lemma truncate_line_short:
  "length (trim (line m)) \<le> 128 \<Longrightarrow> line (truncate_line m) = trim (line m)"
  by (simp add: truncate_line_def Let_def)

text \<open>
  \<^verbatim>\<open>normalizeIntelxId\<close> on the records of the normalizer: the line, the bucket, the file
  name and the date pass as they are, the two identifiers become numbers.
\<close>

lemma normalize_identity_object:
  "\<exists>a b r'. normalizeIntelxId r (json_of_identity m) =
     (JObj [(''line'', JStr (line m)), (''system_id'', JNum a), (''storage_id'', JNum b),
            (''bucket'', JStr (bucket m)), (''filename'', JStr (filename m)),
            (''date'', JStr (date m))], r')"
  by (simp add: json_of_identity_def TRANSITION_FIELDS_def split_beta)

lemma normalize_identity_array:
  assumes "normalize_array r (map json_of_identity xs) = (ys, r')"
  shows "length ys = length xs
     \<and> (\<forall>i<length xs. \<exists>a b.
          ys ! i = JObj [(''line'', JStr (line (xs ! i))), (''system_id'', JNum a),
                         (''storage_id'', JNum b), (''bucket'', JStr (bucket (xs ! i))),
                         (''filename'', JStr (filename (xs ! i))),
                         (''date'', JStr (date (xs ! i)))])"
  using assms
proof (induction xs arbitrary: r ys r')
  case Nil
  then show ?case by simp
next
  case (Cons x xs)
  obtain a b r1 where
    hd: "normalizeIntelxId r (json_of_identity x) =
      (JObj [(''line'', JStr (line x)), (''system_id'', JNum a), (''storage_id'', JNum b),
             (''bucket'', JStr (bucket x)), (''filename'', JStr (filename x)),
             (''date'', JStr (date x))], r1)"
    using normalize_identity_object[of r x] by blast
  obtain zs r2 where tl: "normalize_array r1 (map json_of_identity xs) = (zs, r2)"
    by (cases "normalize_array r1 (map json_of_identity xs)")
  have ys: "ys = JObj [(''line'', JStr (line x)), (''system_id'', JNum a),
                       (''storage_id'', JNum b), (''bucket'', JStr (bucket x)),
                       (''filename'', JStr (filename x)), (''date'', JStr (date x))] # zs"
    using Cons.prems by (simp add: hd tl)
  have ih: "length zs = length xs
     \<and> (\<forall>i<length xs. \<exists>a b.
          zs ! i = JObj [(''line'', JStr (line (xs ! i))), (''system_id'', JNum a),
                         (''storage_id'', JNum b), (''bucket'', JStr (bucket (xs ! i))),
                         (''filename'', JStr (filename (xs ! i))),
                         (''date'', JStr (date (xs ! i)))])"
    using Cons.IH[OF tl] .
  show ?case
  proof (intro conjI allI impI)
    show "length ys = length (x # xs)" using ih by (simp add: ys)
  next
    fix i assume i: "i < length (x # xs)"
    show "\<exists>a b. ys ! i = JObj [(''line'', JStr (line ((x # xs) ! i))), (''system_id'', JNum a),
                         (''storage_id'', JNum b), (''bucket'', JStr (bucket ((x # xs) ! i))),
                         (''filename'', JStr (filename ((x # xs) ! i))),
                         (''date'', JStr (date ((x # xs) ! i)))]"
    proof (cases i)
      case 0
      then show ?thesis by (simp add: ys)
    next
      case (Suc j)
      then have "j < length xs" using i by simp
      then show ?thesis using ih Suc by (simp add: ys)
    qed
  qed
qed

text \<open>
  Claim C8, corrected. Whenever the merge returns, the normalizer returns one object per
  merged record, in the order of \<^verbatim>\<open>Object.values\<close>, and renders the merged line of
  each from its trim, which is always shorter than the merged line (that begins with a
  newline). A trimmed line of more than 128 characters is rendered as its first 128
  characters, then \<^verbatim>\<open>...(More N characters)\<close> where \<open>N\<close>, printed in decimal, is the
  trimmed length minus 128; for a trimmed length of 140 the marker is
  \<^verbatim>\<open>...(More 12 characters)\<close>. A trimmed line of at most 128 characters is rendered as
  the trimmed line. The bucket, the file name and the date stay as they are, the two
  identifiers are numbers.
\<close>

theorem normalizer_renders_merged_lines:
  assumes "mergeByStorageId [] polluted (map project_identity recs) = Inr (merged, polluted')"
  shows "\<exists>ts r'.
     normalizeIdentityRecords polluted r recs = Inr (JArr ts, r', polluted')
     \<and> length ts = length (objectValues merged)
     \<and> (\<forall>i<length ts.
          let m = objectValues merged ! i; trimmed = trim (line m)
          in length trimmed < length (line m)
             \<and> (\<exists>l a b.
                  ts ! i = JObj [(''line'', JStr l), (''system_id'', JNum a),
                                 (''storage_id'', JNum b), (''bucket'', JStr (bucket m)),
                                 (''filename'', JStr (filename m)), (''date'', JStr (date m))]
                  \<and> (128 < length trimmed \<longrightarrow>
                       l = take 128 trimmed @ ''...(More ''
                             @ decimal (length trimmed - 128) @ '' characters)''
                       \<and> nat_of_digits (decimal (length trimmed - 128)) = length trimmed - 128)
                  \<and> (length trimmed = 140 \<longrightarrow>
                       l = take 128 trimmed @ ''...(More 12 characters)'')
                  \<and> (length trimmed \<le> 128 \<longrightarrow> l = trimmed)))"
proof -
  let ?vs = "objectValues merged"
  obtain ys r' where
    arr: "normalize_array r (map json_of_identity (map truncate_line ?vs)) = (ys, r')"
    by (cases "normalize_array r (map json_of_identity (map truncate_line ?vs))")
  have whole: "normalizeIntelxId r (JArr (map json_of_identity (map truncate_line ?vs)))
      = (JArr ys, r')"
    by (simp only: normalizeIntelxId.simps arr Let_def prod.case)
  have res: "normalizeIdentityRecords polluted r recs = Inr (JArr ys, r', polluted')"
    unfolding normalizeIdentityRecords_def assms
    by (simp only: sum.case prod.case whole Let_def)
  have len: "length ys = length ?vs"
    using normalize_identity_array[OF arr] by simp
  have each: "let m = ?vs ! i; trimmed = trim (line m)
          in length trimmed < length (line m)
             \<and> (\<exists>l a b.
                  ys ! i = JObj [(''line'', JStr l), (''system_id'', JNum a),
                                 (''storage_id'', JNum b), (''bucket'', JStr (bucket m)),
                                 (''filename'', JStr (filename m)), (''date'', JStr (date m))]
                  \<and> (128 < length trimmed \<longrightarrow>
                       l = take 128 trimmed @ ''...(More ''
                             @ decimal (length trimmed - 128) @ '' characters)''
                       \<and> nat_of_digits (decimal (length trimmed - 128)) = length trimmed - 128)
                  \<and> (length trimmed = 140 \<longrightarrow>
                       l = take 128 trimmed @ ''...(More 12 characters)'')
                  \<and> (length trimmed \<le> 128 \<longrightarrow> l = trimmed))"
    if i: "i < length ys" for i
  proof -
    let ?m = "?vs ! i"
    have iv: "i < length ?vs" using i len by simp
    obtain rest where nl: "line ?m = CHR 0x0A # rest"
      using merged_line_newline[OF assms iv] by blast
    have shorter: "length (trim (line ?m)) < length (line ?m)"
      unfolding nl by (rule trim_shorter)
    have "i < length (map truncate_line ?vs)" using iv by simp
    then obtain a b where
      "ys ! i = JObj [(''line'', JStr (line (map truncate_line ?vs ! i))),
                      (''system_id'', JNum a), (''storage_id'', JNum b),
                      (''bucket'', JStr (bucket (map truncate_line ?vs ! i))),
                      (''filename'', JStr (filename (map truncate_line ?vs ! i))),
                      (''date'', JStr (date (map truncate_line ?vs ! i)))]"
      using normalize_identity_array[OF arr] by blast
    then have obj: "ys ! i = JObj [(''line'', JStr (line (truncate_line ?m))),
                      (''system_id'', JNum a), (''storage_id'', JNum b),
                      (''bucket'', JStr (bucket ?m)), (''filename'', JStr (filename ?m)),
                      (''date'', JStr (date ?m))]"
      using iv by (simp add: truncate_line_fields)
    have long: "line (truncate_line ?m)
        = take 128 (trim (line ?m)) @ ''...(More ''
            @ decimal (length (trim (line ?m)) - 128) @ '' characters)''"
      if "128 < length (trim (line ?m))"
      using that by (rule truncate_line_long)
    have l140: "line (truncate_line ?m)
        = take 128 (trim (line ?m)) @ ''...(More 12 characters)''"
      if "length (trim (line ?m)) = 140"
      using that long by (simp add: decimal_12)
    have short: "line (truncate_line ?m) = trim (line ?m)"
      if "length (trim (line ?m)) \<le> 128"
      using that by (rule truncate_line_short)
    show ?thesis
      unfolding Let_def
      using shorter obj long l140 short nat_of_digits_decimal by blast
  qed
  show ?thesis
    using res len each by blast
qed

theorem normalizer_renders_merged_lines_witness:
  "mergeByStorageId [] False (map project_identity
     [\<lparr>item_name = ''a.txt'', item_date = ''2024-01-01'', item_bucket = ''leaks'',
       item_storageid = ''S1'', item_systemid = ''sys-1'',
       linea = replicate 140 (CHR ''a'')\<rparr>])
   = Inr ([(''S1'', \<lparr>line = CHR 0x0A # replicate 140 (CHR ''a''), system_id = ''sys-1'',
             storage_id = ''S1'', bucket = ''leaks'', filename = ''a.txt'',
             date = ''2024-01-01''\<rparr>)], False)
   \<and> length (trim (CHR 0x0A # replicate 140 (CHR ''a''))) = 140
   \<and> map_sum id fst (normalizeIdentityRecords False initial_registry
     [\<lparr>item_name = ''a.txt'', item_date = ''2024-01-01'', item_bucket = ''leaks'',
       item_storageid = ''S1'', item_systemid = ''sys-1'',
       linea = replicate 140 (CHR ''a'')\<rparr>])
   = Inr (JArr [JObj [(''line'', JStr (replicate 128 (CHR ''a'') @ ''...(More 12 characters)'')),
                      (''system_id'', JNum 1), (''storage_id'', JNum 1),
                      (''bucket'', JStr ''leaks''), (''filename'', JStr ''a.txt''),
                      (''date'', JStr ''2024-01-01'')]])
   \<and> mergeByStorageId [] False (map project_identity
     [\<lparr>item_name = ''a.txt'', item_date = ''2024-01-01'', item_bucket = ''leaks'',
       item_storageid = ''S1'', item_systemid = ''sys-1'', linea = ''foo''\<rparr>,
      \<lparr>item_name = ''b.txt'', item_date = ''2024-01-02'', item_bucket = ''leaks'',
       item_storageid = ''S1'', item_systemid = ''sys-2'', linea = ''bar''\<rparr>])
   = Inr ([(''S1'', \<lparr>line = CHR 0x0A # ''foo'' @ CHR 0x0A # ''bar'', system_id = ''sys-1'',
             storage_id = ''S1'', bucket = ''leaks'', filename = ''a.txt'',
             date = ''2024-01-01''\<rparr>)], False)
   \<and> length (trim (CHR 0x0A # ''foo'' @ CHR 0x0A # ''bar'')) \<le> 128
   \<and> map_sum id fst (normalizeIdentityRecords False initial_registry
     [\<lparr>item_name = ''a.txt'', item_date = ''2024-01-01'', item_bucket = ''leaks'',
       item_storageid = ''S1'', item_systemid = ''sys-1'', linea = ''foo''\<rparr>,
      \<lparr>item_name = ''b.txt'', item_date = ''2024-01-02'', item_bucket = ''leaks'',
       item_storageid = ''S1'', item_systemid = ''sys-2'', linea = ''bar''\<rparr>])
   = Inr (JArr [JObj [(''line'', JStr (''foo'' @ CHR 0x0A # ''bar'')),
                      (''system_id'', JNum 1), (''storage_id'', JNum 1),
                      (''bucket'', JStr ''leaks''), (''filename'', JStr ''a.txt''),
                      (''date'', JStr ''2024-01-01'')]])"
proof -
  let ?R = "\<lparr>item_name = ''a.txt'', item_date = ''2024-01-01'', item_bucket = ''leaks'',
       item_storageid = ''S1'', item_systemid = ''sys-1'',
       linea = replicate 140 (CHR ''a'')\<rparr>"
  let ?M = "\<lparr>line = CHR 0x0A # replicate 140 (CHR ''a''), system_id = ''sys-1'',
             storage_id = ''S1'', bucket = ''leaks'', filename = ''a.txt'',
             date = ''2024-01-01''\<rparr>"
  let ?F = "\<lparr>item_name = ''a.txt'', item_date = ''2024-01-01'', item_bucket = ''leaks'',
       item_storageid = ''S1'', item_systemid = ''sys-1'', linea = ''foo''\<rparr>"
  let ?B = "\<lparr>item_name = ''b.txt'', item_date = ''2024-01-02'', item_bucket = ''leaks'',
       item_storageid = ''S1'', item_systemid = ''sys-2'', linea = ''bar''\<rparr>"
  let ?N = "\<lparr>line = CHR 0x0A # ''foo'' @ CHR 0x0A # ''bar'', system_id = ''sys-1'',
             storage_id = ''S1'', bucket = ''leaks'', filename = ''a.txt'',
             date = ''2024-01-01''\<rparr>"
  have h1: "mergeByStorageId [] False (map project_identity [?R]) = Inr ([(''S1'', ?M)], False)"
    by (simp add: merge_record_def inherited_def project_identity_def objectPrototypeKeys_def)
  have h2: "mergeByStorageId [] False (map project_identity [?F, ?B])
      = Inr ([(''S1'', ?N)], False)"
    by (simp add: merge_record_def inherited_def project_identity_def objectPrototypeKeys_def)
  have t1: "trim (CHR 0x0A # replicate 140 (CHR ''a'')) = replicate 140 (CHR ''a'')"
    by (simp add: trim_def js_whitespace_def)
  have t2: "trim (CHR 0x0A # ''foo'' @ CHR 0x0A # ''bar'') = ''foo'' @ CHR 0x0A # ''bar''"
    by (simp add: trim_def js_whitespace_def)
  have n1: "length (trim (CHR 0x0A # replicate 140 (CHR ''a''))) = 140"
    unfolding t1 by simp
  have n2: "length (trim (CHR 0x0A # ''foo'' @ CHR 0x0A # ''bar'')) \<le> 128"
    unfolding t2 by simp
  have d1: "map_sum id fst (normalizeIdentityRecords False initial_registry [?R])
      = Inr (JArr [JObj [(''line'', JStr (line (truncate_line ?M))),
                         (''system_id'', JNum 1), (''storage_id'', JNum 1),
                         (''bucket'', JStr ''leaks''), (''filename'', JStr ''a.txt''),
                         (''date'', JStr ''2024-01-01'')]])"
    unfolding normalizeIdentityRecords_def h1
    by (simp add: objectValues_single json_of_identity_def truncate_line_fields
          TRANSITION_FIELDS_def assign_def initial_registry_def Let_def)
  have d2: "map_sum id fst (normalizeIdentityRecords False initial_registry [?F, ?B])
      = Inr (JArr [JObj [(''line'', JStr (line (truncate_line ?N))),
                         (''system_id'', JNum 1), (''storage_id'', JNum 1),
                         (''bucket'', JStr ''leaks''), (''filename'', JStr ''a.txt''),
                         (''date'', JStr ''2024-01-01'')]])"
    unfolding normalizeIdentityRecords_def h2
    by (simp add: objectValues_single json_of_identity_def truncate_line_fields
          TRANSITION_FIELDS_def assign_def initial_registry_def Let_def)
  obtain ts r' where
    res1: "normalizeIdentityRecords False initial_registry [?R] = Inr (JArr ts, r', False)"
    and el1: "\<forall>i<length ts.
          let m = objectValues [(''S1'', ?M)] ! i; trimmed = trim (line m)
          in length trimmed < length (line m)
             \<and> (\<exists>l a b.
                  ts ! i = JObj [(''line'', JStr l), (''system_id'', JNum a),
                                 (''storage_id'', JNum b), (''bucket'', JStr (bucket m)),
                                 (''filename'', JStr (filename m)), (''date'', JStr (date m))]
                  \<and> (128 < length trimmed \<longrightarrow>
                       l = take 128 trimmed @ ''...(More ''
                             @ decimal (length trimmed - 128) @ '' characters)''
                       \<and> nat_of_digits (decimal (length trimmed - 128)) = length trimmed - 128)
                  \<and> (length trimmed = 140 \<longrightarrow>
                       l = take 128 trimmed @ ''...(More 12 characters)'')
                  \<and> (length trimmed \<le> 128 \<longrightarrow> l = trimmed))"
    using normalizer_renders_merged_lines[OF h1, of initial_registry] by blast
  have ts1: "ts = [JObj [(''line'', JStr (line (truncate_line ?M))),
                         (''system_id'', JNum 1), (''storage_id'', JNum 1),
                         (''bucket'', JStr ''leaks''), (''filename'', JStr ''a.txt''),
                         (''date'', JStr ''2024-01-01'')]]"
    using d1 unfolding res1 by simp
  have l1: "line (truncate_line ?M) = replicate 128 (CHR ''a'') @ ''...(More 12 characters)''"
    using el1 unfolding ts1 by (simp add: Let_def objectValues_single t1 decimal_12)
  obtain us r'' where
    res2: "normalizeIdentityRecords False initial_registry [?F, ?B] = Inr (JArr us, r'', False)"
    and el2: "\<forall>i<length us.
          let m = objectValues [(''S1'', ?N)] ! i; trimmed = trim (line m)
          in length trimmed < length (line m)
             \<and> (\<exists>l a b.
                  us ! i = JObj [(''line'', JStr l), (''system_id'', JNum a),
                                 (''storage_id'', JNum b), (''bucket'', JStr (bucket m)),
                                 (''filename'', JStr (filename m)), (''date'', JStr (date m))]
                  \<and> (128 < length trimmed \<longrightarrow>
                       l = take 128 trimmed @ ''...(More ''
                             @ decimal (length trimmed - 128) @ '' characters)''
                       \<and> nat_of_digits (decimal (length trimmed - 128)) = length trimmed - 128)
                  \<and> (length trimmed = 140 \<longrightarrow>
                       l = take 128 trimmed @ ''...(More 12 characters)'')
                  \<and> (length trimmed \<le> 128 \<longrightarrow> l = trimmed))"
    using normalizer_renders_merged_lines[OF h2, of initial_registry] by blast
  have ts2: "us = [JObj [(''line'', JStr (line (truncate_line ?N))),
                         (''system_id'', JNum 1), (''storage_id'', JNum 1),
                         (''bucket'', JStr ''leaks''), (''filename'', JStr ''a.txt''),
                         (''date'', JStr ''2024-01-01'')]]"
    using d2 unfolding res2 by simp
  have l2: "line (truncate_line ?N) = ''foo'' @ CHR 0x0A # ''bar''"
    using el2 unfolding ts2 by (simp add: Let_def objectValues_single t2[simplified])
  show ?thesis
    using h1 n1 d1[unfolded l1] h2 n2 d2[unfolded l2] by blast
qed

text \<open>
  Claim C8 as it is stated fails on the code. The merged line of one record whose line is
  139 letters has 140 characters, its first being the newline of the join; the normalizer
  renders it from the 139 letters of its trim, with the marker
  \<^verbatim>\<open>...(More 11 characters)\<close>, and not as its first 128 characters followed by
  \<^verbatim>\<open>...(More 12 characters)\<close>. The merged line of one record whose line is foo is a
  newline and foo, of trimmed length 3; it is rendered as foo, not left as it is.
\<close>

theorem merged_line_140_counterexample:
  "mergeByStorageId [] False (map project_identity
     [\<lparr>item_name = ''a.txt'', item_date = ''2024-01-01'', item_bucket = ''leaks'',
       item_storageid = ''S1'', item_systemid = ''sys-1'',
       linea = replicate 139 (CHR ''a'')\<rparr>])
   = Inr ([(''S1'', \<lparr>line = CHR 0x0A # replicate 139 (CHR ''a''), system_id = ''sys-1'',
             storage_id = ''S1'', bucket = ''leaks'', filename = ''a.txt'',
             date = ''2024-01-01''\<rparr>)], False)
   \<and> length (CHR 0x0A # replicate 139 (CHR ''a'')) = 140
   \<and> map_sum id fst (normalizeIdentityRecords False initial_registry
     [\<lparr>item_name = ''a.txt'', item_date = ''2024-01-01'', item_bucket = ''leaks'',
       item_storageid = ''S1'', item_systemid = ''sys-1'',
       linea = replicate 139 (CHR ''a'')\<rparr>])
   = Inr (JArr [JObj [(''line'', JStr (replicate 128 (CHR ''a'') @ ''...(More 11 characters)'')),
                      (''system_id'', JNum 1), (''storage_id'', JNum 1),
                      (''bucket'', JStr ''leaks''), (''filename'', JStr ''a.txt''),
                      (''date'', JStr ''2024-01-01'')]])
   \<and> replicate 128 (CHR ''a'') @ ''...(More 11 characters)''
       \<noteq> take 128 (CHR 0x0A # replicate 139 (CHR ''a'')) @ ''...(More 12 characters)''
   \<and> mergeByStorageId [] False (map project_identity
     [\<lparr>item_name = ''a.txt'', item_date = ''2024-01-01'', item_bucket = ''leaks'',
       item_storageid = ''S1'', item_systemid = ''sys-1'', linea = ''foo''\<rparr>])
   = Inr ([(''S1'', \<lparr>line = CHR 0x0A # ''foo'', system_id = ''sys-1'',
             storage_id = ''S1'', bucket = ''leaks'', filename = ''a.txt'',
             date = ''2024-01-01''\<rparr>)], False)
   \<and> length (trim (CHR 0x0A # ''foo'')) = 3
   \<and> map_sum id fst (normalizeIdentityRecords False initial_registry
     [\<lparr>item_name = ''a.txt'', item_date = ''2024-01-01'', item_bucket = ''leaks'',
       item_storageid = ''S1'', item_systemid = ''sys-1'', linea = ''foo''\<rparr>])
   = Inr (JArr [JObj [(''line'', JStr ''foo''),
                      (''system_id'', JNum 1), (''storage_id'', JNum 1),
                      (''bucket'', JStr ''leaks''), (''filename'', JStr ''a.txt''),
                      (''date'', JStr ''2024-01-01'')]])
   \<and> ''foo'' \<noteq> CHR 0x0A # ''foo''"
proof -
  let ?R = "\<lparr>item_name = ''a.txt'', item_date = ''2024-01-01'', item_bucket = ''leaks'',
       item_storageid = ''S1'', item_systemid = ''sys-1'',
       linea = replicate 139 (CHR ''a'')\<rparr>"
  let ?M = "\<lparr>line = CHR 0x0A # replicate 139 (CHR ''a''), system_id = ''sys-1'',
             storage_id = ''S1'', bucket = ''leaks'', filename = ''a.txt'',
             date = ''2024-01-01''\<rparr>"
  let ?F = "\<lparr>item_name = ''a.txt'', item_date = ''2024-01-01'', item_bucket = ''leaks'',
       item_storageid = ''S1'', item_systemid = ''sys-1'', linea = ''foo''\<rparr>"
  let ?N = "\<lparr>line = CHR 0x0A # ''foo'', system_id = ''sys-1'',
             storage_id = ''S1'', bucket = ''leaks'', filename = ''a.txt'',
             date = ''2024-01-01''\<rparr>"
  have h1: "mergeByStorageId [] False (map project_identity [?R]) = Inr ([(''S1'', ?M)], False)"
    by (simp add: merge_record_def inherited_def project_identity_def objectPrototypeKeys_def)
  have h2: "mergeByStorageId [] False (map project_identity [?F]) = Inr ([(''S1'', ?N)], False)"
    by (simp add: merge_record_def inherited_def project_identity_def objectPrototypeKeys_def)
  have t1: "trim (CHR 0x0A # replicate 139 (CHR ''a'')) = replicate 139 (CHR ''a'')"
    by (simp add: trim_def js_whitespace_def)
  have t2: "trim (CHR 0x0A # ''foo'') = ''foo''"
    by (simp add: trim_def js_whitespace_def)
  have l1: "line (truncate_line ?M) = replicate 128 (CHR ''a'') @ ''...(More 11 characters)''"
    using truncate_line_long[of ?M] by (simp add: t1 decimal_11)
  have l2: "line (truncate_line ?N) = ''foo''"
    using truncate_line_short[of ?N] by (simp add: t2)
  have d1: "map_sum id fst (normalizeIdentityRecords False initial_registry [?R])
      = Inr (JArr [JObj [(''line'', JStr (line (truncate_line ?M))),
                         (''system_id'', JNum 1), (''storage_id'', JNum 1),
                         (''bucket'', JStr ''leaks''), (''filename'', JStr ''a.txt''),
                         (''date'', JStr ''2024-01-01'')]])"
    unfolding normalizeIdentityRecords_def h1
    by (simp add: objectValues_single json_of_identity_def truncate_line_fields
          TRANSITION_FIELDS_def assign_def initial_registry_def Let_def)
  have d2: "map_sum id fst (normalizeIdentityRecords False initial_registry [?F])
      = Inr (JArr [JObj [(''line'', JStr (line (truncate_line ?N))),
                         (''system_id'', JNum 1), (''storage_id'', JNum 1),
                         (''bucket'', JStr ''leaks''), (''filename'', JStr ''a.txt''),
                         (''date'', JStr ''2024-01-01'')]])"
    unfolding normalizeIdentityRecords_def h2
    by (simp add: objectValues_single json_of_identity_def truncate_line_fields
          TRANSITION_FIELDS_def assign_def initial_registry_def Let_def)
  have ne1: "replicate 128 (CHR ''a'') @ ''...(More 11 characters)''
       \<noteq> take 128 (CHR 0x0A # replicate 139 (CHR ''a'')) @ ''...(More 12 characters)''"
    by (simp add: take_Cons')
  have n140: "length (CHR 0x0A # replicate 139 (CHR ''a'')) = 140" by simp
  have n3: "length (trim (CHR 0x0A # ''foo'')) = 3" unfolding t2 by simp
  have ne2: "''foo'' \<noteq> CHR 0x0A # ''foo''" by simp
  show ?thesis
    using h1 n140 d1[unfolded l1] ne1 h2 n3 d2[unfolded l2] ne2 by blast
qed

section \<open>The handlers that take a pseudonymized identifier\<close>

text \<open>
  The tool handlers throw, and issue no upstream call, whenever the reverse table has no
  entry for the integer: the error of the schema on a request that does not pass it, the
  error of the failed lookup otherwise.
\<close>

lemma tool_handlers_unknown_identifier:
  "getOriginalUuid ''storageid'' n r = None \<Longrightarrow>
     intelx_file_preview r n b
       = (if filePreviewSchema n b then Inl InvalidIdentifier else Inl ZodError)
     \<and> intelx_file_view r n b
       = (if fileViewSchema n b then Inl InvalidIdentifier else Inl ZodError)"
  "getOriginalUuid ''systemid'' n r = None \<Longrightarrow>
     intelx_file_read r n b
       = (if fileReadSchema n b then Inl InvalidIdentifier else Inl ZodError)
     \<and> intelx_get_selectors r n
       = (if getSelectorsSchema n then Inl InvalidIdentifier else Inl ZodError)"
  "n \<noteq> 0 \<Longrightarrow> getOriginalUuid ''storageid'' n r = None \<Longrightarrow>
     intelx_file_treeview r b (Some n) other
       = (if fileTreeViewSchema b (Some n) other then Inl InvalidIdentifier else Inl ZodError)"
  by (simp_all add: intelx_file_preview_def intelx_file_view_def intelx_file_read_def
        intelx_get_selectors_def intelx_file_treeview_def resolve_if_given_def
        resolve_or_throw_def)

text \<open>
  \<^verbatim>\<open>intelx_file_treeview\<close> with neither identifier truthy is stopped by the refinement of
  its schema.
\<close>

lemma treeview_requires_identifier:
  "\<not> truthy s \<Longrightarrow> \<not> truthy y \<Longrightarrow> intelx_file_treeview r b s y = Inl ZodError"
  "intelx_file_treeview r b (Some 0) None = Inl ZodError"
  by (simp_all add: intelx_file_treeview_def fileTreeViewSchema_def truthy_def)

text \<open>
  The handlers ask for the fields \<^verbatim>\<open>storageid\<close> and \<^verbatim>\<open>systemid\<close>; the registry of
  src/lib/postprocess.ts keeps \<^verbatim>\<open>storage_id\<close> and \<^verbatim>\<open>system_id\<close>, so these lookups find
  nothing in any registry.
\<close>

lemma handler_fields_unknown:
  "getOriginalUuid ''storageid'' n r = None" "getOriginalUuid ''systemid'' n r = None"
  by (simp_all add: getOriginalUuid_def TRANSITION_FIELDS_def)

lemma resource_handlers_pass_on:
  "v \<noteq> Absent \<Longrightarrow> b \<noteq> [] \<Longrightarrow>
     file_resource r v b = Inr (FileRead (resolve_variable ''systemid'' v r) b)
     \<and> tree_resource r v b = Inr (FileTreeView b (resolve_variable ''storageid'' v r) None)"
  by (simp add: file_resource_def tree_resource_def)

text \<open>
  Claim C9 fails on the code for the resource handlers. For the integer 7, which no
  reverse table holds, the tool handler of the file read throws without a call, while
  the resource handlers \<^verbatim>\<open>intelx://file\<close> and \<^verbatim>\<open>intelx://tree\<close> issue their upstream
  calls with an undefined identifier.
\<close>

theorem resource_handler_calls_unresolved:
  "getOriginalUuid ''systemid'' 7 initial_registry = None
   \<and> intelx_file_read initial_registry 7 ''pastes'' = Inl InvalidIdentifier
   \<and> file_resource initial_registry (Numeric 7) ''pastes'' = Inr (FileRead None ''pastes'')
   \<and> tree_resource initial_registry (Numeric 7) ''pastes''
       = Inr (FileTreeView ''pastes'' None None)"
  by (simp add: getOriginalUuid_def TRANSITION_FIELDS_def intelx_file_read_def
        fileReadSchema_def resolve_or_throw_def file_resource_def tree_resource_def
        resolve_variable_def)

end
